theory Spec2Isabelle
  imports Complex_Main "HOL-Library.Char_ord" "HOL-Library.List_Lexorder" "HOL-Library.AList"
    "HOL-Library.Sublist" "HOL-Library.Multiset" "HOL-Library.Option_ord" "HOL-Library.Log_Nat"
begin

section \<open>Python values used by git\_iterative\_blame.py\<close>

text \<open>
  The script runs under Python 3 (its first line asks for \<^verbatim>\<open>python3\<close>, and it calls
  \<^verbatim>\<open>.isdigit()\<close> on what \<^verbatim>\<open>input()\<close> returns). A Python \<^verbatim>\<open>str\<close> is modelled as a
  \<^typ>\<open>string\<close> whose characters are the code points below 256; Python integers are
  \<^typ>\<open>int\<close>; an exception that leaves a function is a value \<open>Inl e\<close>.
\<close>

datatype py_error =
  AssertionError | KeyError | TypeError | ValueError | NameError | EOFError

text \<open>\<^verbatim>\<open>str.isspace\<close> on the code points below 256: tab, line feed, vertical tab, form
  feed, carriage return, the four separators 0x1C-0x1F, space, NEL (0x85) and the
  no-break space (0xA0).\<close>

definition py_isspace :: "char \<Rightarrow> bool" where
  "py_isspace c = (c \<in> set [CHR 0x09, CHR 0x0A, CHR 0x0B, CHR 0x0C, CHR 0x0D,
     CHR 0x1C, CHR 0x1D, CHR 0x1E, CHR 0x1F, CHR 0x20, CHR 0x85, CHR 0xA0])"

definition lstrip :: "string \<Rightarrow> string" where
  "lstrip s = dropWhile py_isspace s"

definition rstrip :: "string \<Rightarrow> string" where
  "rstrip s = rev (dropWhile py_isspace (rev s))"

definition strip :: "string \<Rightarrow> string" where
  "strip s = lstrip (rstrip s)"

text \<open>\<^verbatim>\<open>s.startswith(p)\<close>.\<close>

fun startswith :: "string \<Rightarrow> string \<Rightarrow> bool" where
  "startswith s [] = True"
| "startswith [] (p # ps) = False"
| "startswith (c # cs) (p # ps) = (c = p \<and> startswith cs ps)"

section \<open>The data model\<close>

text \<open>\<^verbatim>\<open>class FileDiffLine\<close>: a line number that is \<^verbatim>\<open>None\<close> in the source is \<open>None\<close>
  here. The file name is the \<^verbatim>\<open>self.filename\<close> of the \<^verbatim>\<open>FileDiff\<close> being parsed, which is
  \<^verbatim>\<open>None\<close> until a path marker has been read.\<close>

record FileDiffLine =
  filename :: "string option"
  left_line_num :: "int option"
  right_line_num :: "int option"
  line_contents :: string

text \<open>\<^verbatim>\<open>FileDiffLine.__eq__\<close> compares the four attributes; record equality is the same
  relation, and \<^verbatim>\<open>!=\<close> is its negation in Python 3.\<close>

definition FileDiffLine_eq :: "FileDiffLine \<Rightarrow> FileDiffLine \<Rightarrow> bool" where
  "FileDiffLine_eq self other =
     (filename self = filename other \<and>
      left_line_num self = left_line_num other \<and>
      right_line_num self = right_line_num other \<and>
      line_contents self = line_contents other)"

record FileDiff =
  fd_lines :: "FileDiffLine list"
  fd_filename :: "string option"

section \<open>Matching functions\<close>

text \<open>
  \<^verbatim>\<open>os.path.commonprefix(m)\<close>: with \<open>s1 = min(m)\<close> and \<open>s2 = max(m)\<close> in the
  lexicographic order of strings, the loop
  \<^verbatim>\<open>for i, c in enumerate(s1): if c != s2[i]: return s1[:i]\<close> followed by
  \<^verbatim>\<open>return s1\<close>. The read \<open>s2[i]\<close> is always in range because \<open>s1 \<le> s2\<close>
  (lemma \<open>prefix_loop_in_range\<close> below), so the third equation is never reached from
  \<open>commonprefix\<close>.
\<close>

fun prefix_loop :: "string \<Rightarrow> string \<Rightarrow> string" where
  "prefix_loop [] s2 = []"
| "prefix_loop (c # cs) (d # ds) = (if c \<noteq> d then [] else c # prefix_loop cs ds)"
| "prefix_loop (c # cs) [] = []"

definition commonprefix :: "string list \<Rightarrow> string" where
  "commonprefix m =
     (if m = [] then []
      else let s1 = fold min (tl m) (hd m); s2 = fold max (tl m) (hd m)
           in prefix_loop s1 s2)"

text \<open>\<^verbatim>\<open>params.get(key, default)\<close> on the dictionary of matching parameters.\<close>

definition params_get :: "(string \<rightharpoonup> real) \<Rightarrow> string \<Rightarrow> real \<Rightarrow> real" where
  "params_get params k d = (case params k of None \<Rightarrow> d | Some v \<Rightarrow> v)"

text \<open>
  Double-precision arithmetic. A Python \<^verbatim>\<open>float\<close> is an IEEE 754 binary64 number: 53
  significant bits, results rounded to the nearest representable value, ties to the even
  significand. The values that occur here are quotients of string lengths. Lengths are
  below \<open>2^63\<close>, so no operation overflows or reaches the subnormal range, and the
  exponent is not bounded in the model.

  \<open>round_half_even_div a b\<close> is the integer nearest to \<open>a / b\<close>, ties to even.
\<close>

definition round_half_even_div :: "nat \<Rightarrow> nat \<Rightarrow> nat" where
  "round_half_even_div a b =
     (let q = a div b; r = a mod b
      in if 2 * r < b then q
         else if b < 2 * r then q + 1
         else if even q then q else q + 1)"

text \<open>\<^verbatim>\<open>float(n)\<close> for a natural number, and the conversion of the integer divisor
  in \<^verbatim>\<open>float / int\<close>: exact below \<open>2^53\<close>, rounded to 53 significant bits above. The
  value of the double is again a natural number.\<close>

definition to_double :: "nat \<Rightarrow> nat" where
  "to_double n =
     (if n < 2 ^ 53 then n
      else let k = floorlog 2 n - 53
           in round_half_even_div n (2 ^ k) * 2 ^ k)"

text \<open>
  The quotient \<open>a / b\<close> of two doubles whose values are the natural numbers \<open>a\<close> and
  \<open>b > 0\<close>: with \<open>e\<close> the exponent of the exact quotient
  (\<open>2^e \<le> a / b < 2^(e + 1)\<close>), the exact quotient is scaled by \<open>2^(52 - e)\<close> into
  the range of 53-bit significands, rounded to the nearest integer, and scaled back.
\<close>

definition double_quotient :: "nat \<Rightarrow> nat \<Rightarrow> real" where
  "double_quotient a b =
     (if a = 0 then 0
      else let d = int (floorlog 2 a) - int (floorlog 2 b);
               e = (if (if 0 \<le> d then b * 2 ^ nat d \<le> a else b \<le> a * 2 ^ nat (- d))
                    then d else d - 1);
               s = 52 - e
           in if 0 \<le> s then real (round_half_even_div (a * 2 ^ nat s) b) / 2 ^ nat s
              else real (round_half_even_div a (b * 2 ^ nat (- s))) * 2 ^ nat (- s))"

text \<open>\<^verbatim>\<open>float(n) / m\<close> for two lengths.\<close>

definition float_div :: "nat \<Rightarrow> nat \<Rightarrow> real" where
  "float_div n m = double_quotient (to_double n) (to_double m)"

text \<open>The value of the literal \<^verbatim>\<open>0.8\<close>: the double nearest to 8/10.\<close>

definition double_0_8 :: real where
  "double_0_8 = 3602879701896397 / 4503599627370496"

text \<open>
  \<^verbatim>\<open>lines_match(l1, l2, params)\<close>. The parameter is a double, given by its value; the
  comparison of two doubles is the comparison of their values.
\<close>

definition lines_match :: "FileDiffLine \<Rightarrow> FileDiffLine \<Rightarrow> (string \<rightharpoonup> real) \<Rightarrow> bool" where
  "lines_match l1 l2 params =
     (let l1_strip = strip (line_contents l1);
          l2_strip = strip (line_contents l2)
      in if l1_strip = [] \<and> l2_strip = [] then True
         else if l1_strip = [] \<or> l2_strip = [] then False
         else let prefix = commonprefix [l1_strip, l2_strip]
              in if float_div (length prefix) (length l1_strip)
                      > params_get params ''min_prefix_length'' double_0_8 then True
                 else if float_div (length prefix) (length l2_strip)
                      > params_get params ''min_prefix_length'' double_0_8 then True
                 else False)"

section \<open>Annotations and revisions\<close>

text \<open>\<^verbatim>\<open>class LineBlame\<close> and \<^verbatim>\<open>class FileBlame\<close>. The attribute names that the source
  shares between classes carry a prefix here.\<close>

record LineBlame =
  lb_filename :: string
  orig_line_number :: int
  current_line_number :: int
  commit_hash :: string
  lb_line_contents :: string

record FileBlame =
  fb_commit_hash :: "string option"
  fb_filename :: string
  fb_lines :: "LineBlame list"

text \<open>\<^verbatim>\<open>FileBlame.get_line_orig\<close> and \<^verbatim>\<open>FileBlame.get_line_current\<close>: the first line of
  the list with the number asked for, \<^verbatim>\<open>raise KeyError(line_num)\<close> when the loop ends.\<close>

fun get_line_orig_loop :: "LineBlame list \<Rightarrow> int \<Rightarrow> py_error + LineBlame" where
  "get_line_orig_loop [] line_num = Inl KeyError"
| "get_line_orig_loop (line # rest) line_num =
     (if orig_line_number line = line_num then Inr line
      else get_line_orig_loop rest line_num)"

definition get_line_orig :: "FileBlame \<Rightarrow> int \<Rightarrow> py_error + LineBlame" where
  "get_line_orig self line_num = get_line_orig_loop (fb_lines self) line_num"

fun get_line_current_loop :: "LineBlame list \<Rightarrow> int \<Rightarrow> py_error + LineBlame" where
  "get_line_current_loop [] line_num = Inl KeyError"
| "get_line_current_loop (line # rest) line_num =
     (if current_line_number line = line_num then Inr line
      else get_line_current_loop rest line_num)"

definition get_line_current :: "FileBlame \<Rightarrow> int \<Rightarrow> py_error + LineBlame" where
  "get_line_current self line_num = get_line_current_loop (fb_lines self) line_num"

text \<open>\<^verbatim>\<open>class Commit\<close>. The dictionary \<^verbatim>\<open>file_diffs\<close> is a list of (key, value) pairs in
  insertion order; its keys are the \<^verbatim>\<open>filename\<close> attributes of the diffs, so a key is
  \<^verbatim>\<open>None\<close> for a file section without a path marker.\<close>

record Commit =
  hash :: string
  author :: "string option"
  date :: "string option"
  file_diffs :: "(string option \<times> FileDiff) list"
  commit_message :: string

text \<open>\<^verbatim>\<open>Commit.__eq__\<close>: \<^verbatim>\<open>return self.hash == other.hash\<close>.\<close>

definition Commit_eq :: "Commit \<Rightarrow> Commit \<Rightarrow> bool" where
  "Commit_eq self other = (hash self = hash other)"

section \<open>The change-set parser: \<^verbatim>\<open>FileDiff.__init__\<close>\<close>

text \<open>
  The regular expression \<^verbatim>\<open>^@@ -([0-9]+),[0-9]+ \+([0-9]+),[0-9]+ @@\<close> under
  \<^verbatim>\<open>re.match\<close>, which anchors at the start of the line only. Each run \<^verbatim>\<open>[0-9]+\<close> is
  followed by a literal that is not a digit, so the expression matches exactly when the
  longest run of digits at each place is non-empty and the literal follows it.
  \<^verbatim>\<open>int(group)\<close> reads the run in base ten.
\<close>

definition is_digit :: "char \<Rightarrow> bool" where
  "is_digit c = (c \<in> set ''0123456789'')"

definition digit_val :: "char \<Rightarrow> int" where
  "digit_val c =
     (case map_of (zip ''0123456789'' [0, 1, 2, 3, 4, 5, 6, 7, 8, 9]) c of
        Some d \<Rightarrow> d
      | None \<Rightarrow> 0)"

definition int_of_digits :: "string \<Rightarrow> int" where
  "int_of_digits ds = foldl (\<lambda>a c. 10 * a + digit_val c) 0 ds"

definition expect :: "string \<Rightarrow> string \<Rightarrow> string option" where
  "expect lit s = (if startswith s lit then Some (drop (length lit) s) else None)"

definition digits_plus :: "string \<Rightarrow> (string \<times> string) option" where
  "digits_plus s =
     (if takeWhile is_digit s = [] then None
      else Some (takeWhile is_digit s, dropWhile is_digit s))"

definition position_match :: "string \<Rightarrow> (int \<times> int) option" where
  "position_match line =
     Option.bind (expect ''@@ -'' line) (\<lambda>s1.
     Option.bind (digits_plus s1) (\<lambda>(g1, s2).
     Option.bind (expect '','' s2) (\<lambda>s3.
     Option.bind (digits_plus s3) (\<lambda>(c1, s4).
     Option.bind (expect '' +'' s4) (\<lambda>s5.
     Option.bind (digits_plus s5) (\<lambda>(g2, s6).
     Option.bind (expect '','' s6) (\<lambda>s7.
     Option.bind (digits_plus s7) (\<lambda>(c2, s8).
     Option.bind (expect '' @@'' s8) (\<lambda>s9.
     Some (int_of_digits g1, int_of_digits g2))))))))))"

text \<open>
  The variables of the loop in \<^verbatim>\<open>FileDiff.__init__\<close>. The two counters are unbound in the
  source until the first hunk header; they are read only when \<^verbatim>\<open>parsing_contents\<close> is
  true, which the same branch sets, so their initial value here is never read.
\<close>

record FileDiff_vars =
  self_lines :: "FileDiffLine list"
  self_filename :: "string option"
  parsing_contents :: bool
  cur_left_line_num :: int
  cur_right_line_num :: int

definition FileDiff_vars_init :: FileDiff_vars where
  "FileDiff_vars_init =
     \<lparr>self_lines = [], self_filename = None, parsing_contents = False,
      cur_left_line_num = 0, cur_right_line_num = 0\<rparr>"

text \<open>One iteration of \<^verbatim>\<open>for line in lines\<close>, in the order of the source; a failed
  \<^verbatim>\<open>assert\<close> is \<open>Inl AssertionError\<close>.\<close>

definition FileDiff_step :: "FileDiff_vars \<Rightarrow> string \<Rightarrow> py_error + FileDiff_vars" where
  "FileDiff_step v line =
     (if startswith line ''diff'' then
        (if parsing_contents v then Inl AssertionError else Inr v)
      else if startswith line ''index'' then
        (if parsing_contents v then Inl AssertionError else Inr v)
      else if (startswith line ''--- a/'' \<or> startswith line ''+++ b/'') \<and>
              \<not> parsing_contents v then
        (case self_filename v of
           Some f \<Rightarrow> (if f = drop 6 line then Inr v else Inl AssertionError)
         | None \<Rightarrow> Inr (v\<lparr>self_filename := Some (drop 6 line)\<rparr>))
      else
        (case position_match line of
           Some (l, r) \<Rightarrow>
             Inr (v\<lparr>parsing_contents := True, cur_left_line_num := l,
                    cur_right_line_num := r\<rparr>)
         | None \<Rightarrow>
             if parsing_contents v then
               (if startswith line '' '' then
                  Inr (v\<lparr>self_lines := self_lines v @
                          [\<lparr>filename = self_filename v,
                            left_line_num = Some (cur_left_line_num v),
                            right_line_num = Some (cur_right_line_num v),
                            line_contents = rstrip (drop 1 line)\<rparr>],
                        cur_left_line_num := cur_left_line_num v + 1,
                        cur_right_line_num := cur_right_line_num v + 1\<rparr>)
                else if startswith line ''-'' then
                  Inr (v\<lparr>self_lines := self_lines v @
                          [\<lparr>filename = self_filename v,
                            left_line_num = Some (cur_left_line_num v),
                            right_line_num = None,
                            line_contents = rstrip (drop 1 line)\<rparr>],
                        cur_left_line_num := cur_left_line_num v + 1\<rparr>)
                else if startswith line ''+'' then
                  Inr (v\<lparr>self_lines := self_lines v @
                          [\<lparr>filename = self_filename v,
                            left_line_num = None,
                            right_line_num = Some (cur_right_line_num v),
                            line_contents = rstrip (drop 1 line)\<rparr>],
                        cur_right_line_num := cur_right_line_num v + 1\<rparr>)
                else Inl AssertionError)
             else Inr v))"

fun FileDiff_loop :: "FileDiff_vars \<Rightarrow> string list \<Rightarrow> py_error + FileDiff_vars" where
  "FileDiff_loop v [] = Inr v"
| "FileDiff_loop v (line # rest) =
     (case FileDiff_step v line of
        Inl e \<Rightarrow> Inl e
      | Inr v' \<Rightarrow> FileDiff_loop v' rest)"

definition FileDiff_init :: "string list \<Rightarrow> py_error + FileDiff" where
  "FileDiff_init lines =
     (case FileDiff_loop FileDiff_vars_init lines of
        Inl e \<Rightarrow> Inl e
      | Inr v \<Rightarrow> Inr \<lparr>fd_lines = self_lines v, fd_filename = self_filename v\<rparr>)"

text \<open>The pre-image and the post-image numbers of a list of diff lines, over the
  lines that have one.\<close>

definition left_nums :: "FileDiffLine list \<Rightarrow> int list" where
  "left_nums ls = List.map_filter left_line_num ls"

definition right_nums :: "FileDiffLine list \<Rightarrow> int list" where
  "right_nums ls = List.map_filter right_line_num ls"

text \<open>A list of numbers that starts at \<open>n\<close> and advances by exactly one.\<close>

fun consecutive_from :: "int \<Rightarrow> int list \<Rightarrow> bool" where
  "consecutive_from n [] = True"
| "consecutive_from n (x # xs) = (x = n \<and> consecutive_from (n + 1) xs)"

text \<open>
  The specification's account of the body of one hunk, to be compared with the parser:
  starting from the two counters, a line with a leading space gives a diff line that
  carries both counters (its text is the rest of the line without trailing whitespace)
  and increments both; a line with a leading \<open>-\<close> gives one with the pre-image counter
  only and increments that counter; a line with a leading \<open>+\<close> gives one with the
  post-image counter only and increments that counter; any other line is a fatal error.
  The result is the list of diff lines and the final counters.
\<close>

definition emit ::
  "FileDiffLine \<Rightarrow> py_error + (FileDiffLine list \<times> int \<times> int) \<Rightarrow>
   py_error + (FileDiffLine list \<times> int \<times> int)" where
  "emit dl res = (case res of Inl e \<Rightarrow> Inl e | Inr (ls, l, r) \<Rightarrow> Inr (dl # ls, l, r))"

fun hunk_body_spec ::
  "string option \<Rightarrow> int \<Rightarrow> int \<Rightarrow> string list \<Rightarrow> py_error + (FileDiffLine list \<times> int \<times> int)" where
  "hunk_body_spec f l r [] = Inr ([], l, r)"
| "hunk_body_spec f l r (line # rest) =
     (if startswith line '' '' then
        emit \<lparr>filename = f, left_line_num = Some l, right_line_num = Some r,
              line_contents = rstrip (drop 1 line)\<rparr>
          (hunk_body_spec f (l + 1) (r + 1) rest)
      else if startswith line ''-'' then
        emit \<lparr>filename = f, left_line_num = Some l, right_line_num = None,
              line_contents = rstrip (drop 1 line)\<rparr>
          (hunk_body_spec f (l + 1) r rest)
      else if startswith line ''+'' then
        emit \<lparr>filename = f, left_line_num = None, right_line_num = Some r,
              line_contents = rstrip (drop 1 line)\<rparr>
          (hunk_body_spec f l (r + 1) rest)
      else Inl AssertionError)"

section \<open>Candidate matches: the loop of \<^verbatim>\<open>iterative_blame_interactive\<close>\<close>

text \<open>\<^verbatim>\<open>FileDiff.get_line(left_num, right_num)\<close>.\<close>

fun get_line_loop :: "FileDiffLine list \<Rightarrow> int option \<Rightarrow> int option \<Rightarrow> py_error + FileDiffLine" where
  "get_line_loop [] left_num right_num = Inl KeyError"
| "get_line_loop (l # rest) left_num right_num =
     (if left_line_num l = left_num \<and> right_line_num l = right_num then Inr l
      else get_line_loop rest left_num right_num)"

definition get_line :: "FileDiff \<Rightarrow> int option \<Rightarrow> int option \<Rightarrow> py_error + FileDiffLine" where
  "get_line self left_num right_num = get_line_loop (fd_lines self) left_num right_num"

text \<open>
  \<^verbatim>\<open>sorted(c.file_diffs.items())\<close> orders the (key, value) pairs by key, the keys of a
  dictionary being distinct. Strings compare lexicographically by code point. In
  Python 3 the comparison of \<^verbatim>\<open>None\<close> with a string raises \<^verbatim>\<open>TypeError\<close>; sorting
  compares every element of a list of two or more, so the call raises when such a list
  has the key \<^verbatim>\<open>None\<close>.
\<close>

definition sorted_items ::
  "(string option \<times> FileDiff) list \<Rightarrow> py_error + (string option \<times> FileDiff) list" where
  "sorted_items items =
     (if length items \<le> 1 then Inr items
      else if list_ex (\<lambda>(k, d). k = None) items then Inl TypeError
      else Inr (sort_key (\<lambda>(k, d). the k) items))"

text \<open>\<^verbatim>\<open>str(n)\<close> for a natural number.\<close>

fun str_nat :: "nat \<Rightarrow> string" where
  "str_nat n =
     (if n < 10 then [''0123456789'' ! n]
      else str_nat (n div 10) @ [''0123456789'' ! (n mod 10)])"

declare str_nat.simps [simp del]

type_synonym match = "string option \<times> int option \<times> int option"

type_synonym highlights = "(match \<times> string) list"

text \<open>
  The body of \<^verbatim>\<open>for l in d.lines\<close>. The state is the list \<^verbatim>\<open>all_matches\<close> and the
  dictionary \<^verbatim>\<open>highlight_lines\<close>, kept in insertion order; an assignment to a key that
  is present replaces its value in place.
\<close>

definition match_line ::
  "FileDiff \<Rightarrow> FileDiffLine \<Rightarrow> (string \<rightharpoonup> real) \<Rightarrow> FileDiffLine \<Rightarrow>
   match list \<times> highlights \<Rightarrow> match list \<times> highlights" where
  "match_line d target_line match_params l st =
     (case st of (all_matches, highlight_lines) \<Rightarrow>
        if lines_match l target_line match_params \<and> \<not> FileDiffLine_eq l target_line \<and>
           left_line_num l \<noteq> None
        then let match = (fd_filename d, left_line_num l, right_line_num l);
                 all_matches' = all_matches @ [match]
             in (all_matches',
                 AList.update match (str_nat (length all_matches')) highlight_lines)
        else (all_matches, highlight_lines))"

text \<open>\<^verbatim>\<open>for _, d in sorted(c.file_diffs.items()): for l in d.lines: ...\<close>, started with
  an empty \<^verbatim>\<open>all_matches\<close> and the highlight of the target line.\<close>

definition find_matches ::
  "Commit \<Rightarrow> FileDiffLine \<Rightarrow> highlights \<Rightarrow> (string \<rightharpoonup> real) \<Rightarrow>
   py_error + (match list \<times> highlights)" where
  "find_matches c target_line highlight_lines match_params =
     (case sorted_items (file_diffs c) of
        Inl e \<Rightarrow> Inl e
      | Inr items \<Rightarrow>
          Inr (fold (\<lambda>(k, d) st. fold (match_line d target_line match_params) (fd_lines d) st)
                 items ([], highlight_lines)))"

text \<open>
  Lines 338-355: with a target line number that is not zero, the target line is looked
  up in the diff of the target file under the key (\<^verbatim>\<open>None\<close>, original line number), and
  the matches are collected; without one there are no matches and no highlights.
\<close>

definition compute_matches ::
  "Commit \<Rightarrow> string \<Rightarrow> int option \<Rightarrow> int \<Rightarrow> (string \<rightharpoonup> real) \<Rightarrow>
   py_error + (match list \<times> highlights)" where
  "compute_matches c target_filename target_line_num orig match_params =
     (if target_line_num \<noteq> None \<and> target_line_num \<noteq> Some 0 then
        (case map_of (file_diffs c) (Some target_filename) of
           None \<Rightarrow> Inl KeyError
         | Some d \<Rightarrow>
             (case get_line d None (Some orig) of
                Inl e \<Rightarrow> Inl e
              | Inr target_line \<Rightarrow>
                  find_matches c target_line
                    [((Some target_filename, None, Some orig), ''target'')] match_params))
      else Inr ([], []))"

section \<open>Rendering: \<^verbatim>\<open>Commit.print_stream\<close> and \<^verbatim>\<open>FileDiff.print_stream\<close>\<close>

text \<open>
  The stream is the list of the calls of \<^verbatim>\<open>stream.write\<close>, each with the values that
  are formatted into it. The layout of a diff line (margin width, colours) is display
  formatting and is not part of the value.
\<close>

datatype stream_write =
  WriteHeader string "string option" "string option"
| WriteMessage string
| WriteBlankDiff
| WriteHighlight string
| WriteNoHighlight
| WriteDiffLine FileDiffLine
| WriteNewline

type_synonym file_highlights = "((int option \<times> int option) \<times> string) list"

text \<open>The test \<^verbatim>\<open>abs(l.left_line_num - left_num) < context_around_highlights\<close>
  guarded by both numbers being present.\<close>

definition near :: "int option \<Rightarrow> int option \<Rightarrow> int \<Rightarrow> bool" where
  "near a b c = (case (a, b) of (Some x, Some y) \<Rightarrow> \<bar>x - y\<bar> < c | _ \<Rightarrow> False)"

definition should_show_line :: "FileDiffLine \<Rightarrow> file_highlights \<Rightarrow> int option \<Rightarrow> bool" where
  "should_show_line l highlight_lines context_around_highlights =
     (case context_around_highlights of
        None \<Rightarrow> True
      | Some c \<Rightarrow>
          fold (\<lambda>((left_num, right_num), highlight_char) should_show.
                  let s1 = (if near (left_line_num l) left_num c then True else should_show)
                  in if near (right_line_num l) right_num c then True else s1)
               highlight_lines False)"

definition FileDiff_print_stream ::
  "FileDiff \<Rightarrow> file_highlights \<Rightarrow> int option \<Rightarrow> stream_write list" where
  "FileDiff_print_stream self highlight_lines context_around_highlights =
     (if fd_lines self = [] then [WriteBlankDiff]
      else concat (map (\<lambda>l.
             if \<not> should_show_line l highlight_lines context_around_highlights then []
             else [(case map_of highlight_lines (left_line_num l, right_line_num l) of
                      Some highlight_char \<Rightarrow>
                        if highlight_char \<noteq> [] then WriteHighlight highlight_char
                        else WriteNoHighlight
                    | None \<Rightarrow> WriteNoHighlight),
                   WriteDiffLine l])
           (fd_lines self)))"

text \<open>The dictionary \<^verbatim>\<open>this_file_highlight_lines\<close> built in \<^verbatim>\<open>Commit.print_stream\<close>.\<close>

definition this_file_highlight_lines :: "FileDiff \<Rightarrow> highlights \<Rightarrow> file_highlights" where
  "this_file_highlight_lines d highlight_lines =
     fold (\<lambda>((fname, left_num, right_num), highlight_char) acc.
             if fname = fd_filename d then AList.update (left_num, right_num) highlight_char acc
             else acc)
          highlight_lines []"

text \<open>The body of \<^verbatim>\<open>for _, d in sorted(self.file_diffs.items())\<close>.\<close>

definition print_file ::
  "FileDiff \<Rightarrow> highlights \<Rightarrow> int option \<Rightarrow> stream_write list" where
  "print_file d highlight_lines context_around_highlights =
     (if context_around_highlights \<noteq> None \<and> this_file_highlight_lines d highlight_lines = []
      then []
      else FileDiff_print_stream d (this_file_highlight_lines d highlight_lines)
             context_around_highlights @ [WriteNewline])"

definition Commit_print_stream ::
  "Commit \<Rightarrow> highlights \<Rightarrow> int option \<Rightarrow> py_error + stream_write list" where
  "Commit_print_stream self highlight_lines context_around_highlights =
     (case sorted_items (file_diffs self) of
        Inl e \<Rightarrow> Inl e
      | Inr items \<Rightarrow>
          Inr ([WriteHeader (hash self) (author self) (date self),
                WriteMessage (commit_message self)] @
               concat (map (\<lambda>(k, d). print_file d highlight_lines context_around_highlights)
                         items)))"

text \<open>Line 357:
  \<^verbatim>\<open>context_around_highlights = None if (full_diffs or not highlight_lines) else 10\<close>.\<close>

definition context_around_highlights :: "bool \<Rightarrow> highlights \<Rightarrow> int option" where
  "context_around_highlights full_diffs highlight_lines =
     (if full_diffs \<or> highlight_lines = [] then None else Some 10)"

text \<open>A diff line is far from a highlighted position when, in each numbering that both
  have, the distance is more than \<open>c\<close>.\<close>

definition far_from :: "FileDiffLine \<Rightarrow> int option \<Rightarrow> int option \<Rightarrow> int \<Rightarrow> bool" where
  "far_from l left_num right_num c =
     ((case (left_line_num l, left_num) of (Some x, Some y) \<Rightarrow> \<bar>x - y\<bar> > c | _ \<Rightarrow> True) \<and>
      (case (right_line_num l, right_num) of (Some x, Some y) \<Rightarrow> \<bar>x - y\<bar> > c | _ \<Rightarrow> True))"

text \<open>The labels that the loop gives to a list of matches appended when \<open>n\<close> matches
  have been found before: \<^verbatim>\<open>highlight_lines[match] = str(len(all_matches))\<close>.\<close>

fun number_matches :: "nat \<Rightarrow> match list \<Rightarrow> highlights \<Rightarrow> highlights" where
  "number_matches n [] hl = hl"
| "number_matches n (m # ms) hl = number_matches (Suc n) ms (AList.update m (str_nat (Suc n)) hl)"

section \<open>The choice prompt and the next cursor\<close>

text \<open>
  \<^verbatim>\<open>str.isdigit()\<close> on code points below 256: the string is not empty and every
  character is an ASCII digit or one of the superscripts two, three and one (0xB2, 0xB3,
  0xB9), which are digits for \<^verbatim>\<open>isdigit\<close> and are refused by \<^verbatim>\<open>int\<close>.
\<close>

definition py_isdigit :: "string \<Rightarrow> bool" where
  "py_isdigit s =
     (s \<noteq> [] \<and> list_all (\<lambda>c. is_digit c \<or> c \<in> set [CHR 0xB2, CHR 0xB3, CHR 0xB9]) s)"

text \<open>
  \<^verbatim>\<open>int(s)\<close> for a string: surrounding whitespace is dropped, one sign may lead, and the
  rest is decimal digits, with single underscores allowed between digits; anything else
  raises \<^verbatim>\<open>ValueError\<close>. (The limit that recent interpreters put on the number of
  digits is not modelled.)
\<close>

fun digits_body :: "string \<Rightarrow> bool" where
  "digits_body [] = False"
| "digits_body [c] = is_digit c"
| "digits_body (c # d # r) =
     (is_digit c \<and> (if d = CHR ''_'' then digits_body r else digits_body (d # r)))"

definition py_int :: "string \<Rightarrow> py_error + int" where
  "py_int s =
     (let t = strip s;
          neg = startswith t ''-'';
          body = (if startswith t ''-'' \<or> startswith t ''+'' then drop 1 t else t)
      in if digits_body body
         then Inr ((if neg then - 1 else 1) * int_of_digits (filter is_digit body))
         else Inl ValueError)"

text \<open>\<^verbatim>\<open>s.split(sep)\<close> for a separator of one character.\<close>

fun split_on :: "char \<Rightarrow> string \<Rightarrow> string list" where
  "split_on sep [] = [[]]"
| "split_on sep (c # cs) =
     (if c = sep then [] # split_on sep cs
      else (case split_on sep cs of
              p # ps \<Rightarrow> (c # p) # ps
            | [] \<Rightarrow> [[c]]))"

text \<open>The value of \<^verbatim>\<open>choice\<close> when the loop \<^verbatim>\<open>while choice is None\<close> ends: an integer
  or a pair (file name, line number).\<close>

datatype choice = IntChoice int | TupleChoice string int

datatype prompt_result = Quit | Chosen choice

text \<open>
  The loop \<^verbatim>\<open>while choice is None\<close> over the lines that \<^verbatim>\<open>input()\<close> returns, in the
  order of the source; \<^verbatim>\<open>input()\<close> raises \<^verbatim>\<open>EOFError\<close> when no line is left. What the
  loop writes (the prompt, and the full diff after \<open>f\<close>) does not change its result
  and is left out.
\<close>

fun choice_loop :: "match list \<Rightarrow> string list \<Rightarrow> py_error + prompt_result" where
  "choice_loop all_matches [] = Inl EOFError"
| "choice_loop all_matches (choice # rest) =
     (if py_isdigit choice then
        (case py_int choice of
           Inl e \<Rightarrow> Inl e
         | Inr n \<Rightarrow>
             if n < 1 \<or> n > int (length all_matches) then choice_loop all_matches rest
             else Inr (Chosen (IntChoice n)))
      else if choice = ''q'' then Inr Quit
      else if choice = ''f'' then choice_loop all_matches rest
      else if CHR '':'' \<in> set choice then
        (case split_on CHR '':'' choice of
           [fn, line] \<Rightarrow>
             (case py_int line of
                Inl e \<Rightarrow> choice_loop all_matches rest
              | Inr n \<Rightarrow> Inr (Chosen (TupleChoice fn n)))
         | _ \<Rightarrow> choice_loop all_matches rest)
      else choice_loop all_matches rest)"

text \<open>The cursor of the trace: the arguments of the next iteration of \<^verbatim>\<open>while True\<close>.\<close>

record TraceCursor =
  target_filename :: "string option"
  target_line_num :: "int option"
  cursor_commit_hash :: string

text \<open>
  Lines 402-409. The first test is \<^verbatim>\<open>isinstance(choice, tuple)\<close>. The second is
  \<^verbatim>\<open>isinstance(choice, (int, long))\<close>: its argument \<^verbatim>\<open>(int, long)\<close> is evaluated
  first, and Python 3 has no name \<^verbatim>\<open>long\<close> (the script neither defines nor imports
  one), so for an integer choice the evaluation raises \<^verbatim>\<open>NameError\<close> and the two
  assignments from \<^verbatim>\<open>all_matches[choice - 1]\<close> under it are not reached.
\<close>

definition next_cursor :: "Commit \<Rightarrow> match list \<Rightarrow> choice \<Rightarrow> py_error + TraceCursor" where
  "next_cursor c all_matches choice =
     (case choice of
        TupleChoice fn line \<Rightarrow>
          Inr \<lparr>target_filename = Some fn, target_line_num = Some line,
               cursor_commit_hash = hash c @ ''^''\<rparr>
      | IntChoice n \<Rightarrow> Inl NameError)"

text \<open>The prompt followed by the update of the cursor; \<open>None\<close> is \<^verbatim>\<open>return 0\<close>
  after \<open>q\<close>.\<close>

definition present_choice ::
  "Commit \<Rightarrow> match list \<Rightarrow> string list \<Rightarrow> py_error + TraceCursor option" where
  "present_choice c all_matches inputs =
     (case choice_loop all_matches inputs of
        Inl e \<Rightarrow> Inl e
      | Inr Quit \<Rightarrow> Inr None
      | Inr (Chosen choice) \<Rightarrow>
          (case next_cursor c all_matches choice of
             Inl e \<Rightarrow> Inl e
           | Inr cursor \<Rightarrow> Inr (Some cursor)))"

text \<open>
  What the specification asks of a selection by number: the cursor made of the file
  path and the pre-image line number of the candidate at place \<open>k\<close> (counted from one)
  and of the shown revision's identifier followed by the parent marker.
\<close>

definition selected_cursor_spec :: "Commit \<Rightarrow> match list \<Rightarrow> nat \<Rightarrow> TraceCursor" where
  "selected_cursor_spec c all_matches k =
     (case all_matches ! (k - 1) of
        (path, left_num, right_num) \<Rightarrow>
          \<lparr>target_filename = path, target_line_num = left_num,
           cursor_commit_hash = hash c @ ''^''\<rparr>)"

section \<open>Properties of the similarity test\<close>

lemma prefix_loop_Nil2: "prefix_loop s [] = []"
  by (cases s) simp_all

lemma prefix_loop_commute: "prefix_loop a b = prefix_loop b a"
  by (induction a b rule: prefix_loop.induct) (auto simp: prefix_loop_Nil2)

lemma prefix_loop_longest: "prefix_loop a b = longest_common_prefix a b"
  by (induction a b rule: prefix_loop.induct) (auto simp: prefix_loop_Nil2)

lemma prefix_loop_length_le: "length (prefix_loop a b) \<le> length a"
  by (induction a b rule: prefix_loop.induct) auto

lemma prefix_loop_in_range:
  "s1 \<le> s2 \<Longrightarrow> length (prefix_loop s1 s2) < length s1 \<Longrightarrow>
   length (prefix_loop s1 s2) < length s2"
  by (induction s1 s2 rule: prefix_loop.induct) (auto split: if_splits)

lemma commonprefix_pair: "commonprefix [a, b] = prefix_loop a b"
proof (cases "a \<le> b")
  case True
  then show ?thesis by (simp add: commonprefix_def min_def max_def)
next
  case False
  then have "b \<le> a" by simp
  with False show ?thesis
    by (simp add: commonprefix_def min_def max_def prefix_loop_commute [of b a])
qed

lemma strip_literals:
  "strip [] = []" "strip ''x'' = ''x''"
  "strip ''foobar'' = ''foobar''" "strip ''foobaz'' = ''foobaz''"
  "strip ''abc'' = ''abc''" "strip ''abd'' = ''abd''"
  by (simp_all add: strip_def lstrip_def rstrip_def py_isspace_def)

lemma longest_common_prefix_length_le:
  fixes a b :: string
  shows "length (longest_common_prefix a b) \<le> length a"
    and "length (longest_common_prefix a b) \<le> length b"
  using prefix_loop_length_le [of a b] prefix_loop_length_le [of b a]
  by (simp_all add: prefix_loop_longest [symmetric] prefix_loop_commute [of a b])

subsection \<open>Double-precision quotients\<close>

lemma rhe_bounds:
  "a div b \<le> round_half_even_div a b \<and> round_half_even_div a b \<le> a div b + 1"
  by (simp add: round_half_even_div_def Let_def)

lemma rhe_exact: "0 < b \<Longrightarrow> round_half_even_div (q * b) b = q"
  by (simp add: round_half_even_div_def)

lemma rhe_mono:
  assumes "0 < b" "a \<le> a'"
  shows "round_half_even_div a b \<le> round_half_even_div a' b"
proof (cases "a div b < a' div b")
  case True
  have "round_half_even_div a b \<le> a div b + 1" using rhe_bounds by blast
  also have "\<dots> \<le> a' div b" using True by simp
  also have "\<dots> \<le> round_half_even_div a' b" using rhe_bounds by blast
  finally show ?thesis .
next
  case False
  with assms have q: "a div b = a' div b"
    using div_le_mono [of a a' b] by simp
  have "a mod b \<le> a' mod b"
  proof -
    have "a = a div b * b + a mod b" "a' = a' div b * b + a' mod b" by simp_all
    with q assms(2) show ?thesis
      by (metis add_le_cancel_left)
  qed
  then show ?thesis
    by (auto simp: round_half_even_div_def Let_def q)
qed

lemma rhe_scaled_le:
  assumes "a \<le> b" "0 < b"
  shows "round_half_even_div (a * k) b \<le> k"
proof (cases "a = b")
  case True
  then show ?thesis using assms rhe_exact [of b k] by (simp add: mult.commute)
next
  case False
  show ?thesis
  proof (cases "k = 0")
    case True
    then show ?thesis by (simp add: round_half_even_div_def assms)
  next
    case k: False
    from False assms have "a < b" by simp
    then have "a * k < k * b" using k by (simp add: mult.commute)
    then have "(a * k) div b < k" by (rule less_mult_imp_div_less)
    with rhe_bounds [of "a * k" b] show ?thesis by simp
  qed
qed

lemma to_double_range:
  assumes "2 ^ 53 \<le> n"
  shows "2 ^ (floorlog 2 n - 1) \<le> to_double n \<and> to_double n \<le> 2 ^ floorlog 2 n"
proof -
  have pos: "0 < n" using assms by (metis less_le_trans zero_less_numeral zero_less_power)
  have fl: "54 \<le> floorlog 2 n"
    using floorlog_geI [where w = 54 and b = 2 and x = n] assms by simp
  define k where "k = floorlog 2 n - 53"
  have kk: "floorlog 2 n = k + 53" using fl by (simp add: k_def)
  from floorlog_bounds [OF pos, of 2] have lo: "2 ^ (k + 52) \<le> n" and hi: "n < 2 ^ (k + 53)"
    by (simp_all add: kk add.commute)
  have td: "to_double n = round_half_even_div n (2 ^ k) * 2 ^ k"
    using assms by (simp add: to_double_def k_def Let_def)
  have "2 ^ 52 \<le> n div 2 ^ k"
  proof -
    have "(2::nat) ^ 52 * 2 ^ k \<le> n" using lo by (simp add: power_add mult.commute)
    then show ?thesis by (simp add: less_eq_div_iff_mult_less_eq)
  qed
  then have a: "2 ^ 52 \<le> round_half_even_div n (2 ^ k)"
    using rhe_bounds [of n "2 ^ k"] by linarith
  have "n div 2 ^ k < 2 ^ 53"
    using hi by (simp add: power_add less_mult_imp_div_less mult.commute)
  then have b: "round_half_even_div n (2 ^ k) \<le> 2 ^ 53"
    using rhe_bounds [of n "2 ^ k"] by linarith
  from a have "2 ^ 52 * 2 ^ k \<le> to_double n" unfolding td by (rule mult_le_mono1)
  moreover from b have "to_double n \<le> 2 ^ 53 * 2 ^ k" unfolding td by (rule mult_le_mono1)
  ultimately show ?thesis by (simp add: kk power_add mult.commute)
qed

lemma to_double_mono:
  assumes "n \<le> m"
  shows "to_double n \<le> to_double m"
proof (cases "m < 2 ^ 53")
  case True
  with assms show ?thesis by (simp add: to_double_def)
next
  case mbig: False
  then have m53: "2 ^ 53 \<le> m" by simp
  have fm: "54 \<le> floorlog 2 m" using floorlog_geI [where w = 54 and b = 2 and x = m] m53 by simp
  show ?thesis
  proof (cases "n < 2 ^ 53")
    case True
    then have "to_double n < 2 ^ 53" by (simp add: to_double_def)
    also have "(2::nat) ^ 53 \<le> 2 ^ (floorlog 2 m - 1)"
      using fm by (intro power_increasing) simp_all
    also have "\<dots> \<le> to_double m" using to_double_range [OF m53] by blast
    finally show ?thesis by simp
  next
    case False
    then have n53: "2 ^ 53 \<le> n" by simp
    have fn: "54 \<le> floorlog 2 n" using floorlog_geI [where w = 54 and b = 2 and x = n] n53 by simp
    have le: "floorlog 2 n \<le> floorlog 2 m" using assms by (rule floorlog_mono)
    show ?thesis
    proof (cases "floorlog 2 n = floorlog 2 m")
      case True
      have "round_half_even_div n (2 ^ (floorlog 2 m - 53)) \<le>
            round_half_even_div m (2 ^ (floorlog 2 m - 53))"
        using assms by (intro rhe_mono) simp_all
      then show ?thesis
        using n53 m53 True by (simp add: to_double_def Let_def)
    next
      case False
      with le have lt: "floorlog 2 n \<le> floorlog 2 m - 1" by simp
      have "to_double n \<le> 2 ^ floorlog 2 n" using to_double_range [OF n53] by blast
      also have "(2::nat) ^ floorlog 2 n \<le> 2 ^ (floorlog 2 m - 1)"
        using lt by (intro power_increasing) simp_all
      also have "\<dots> \<le> to_double m" using to_double_range [OF m53] by blast
      finally show ?thesis .
    qed
  qed
qed

lemma to_double_pos: "0 < n \<Longrightarrow> 0 < to_double n"
proof (cases "n < 2 ^ 53")
  case True
  assume "0 < n"
  with True show ?thesis by (simp add: to_double_def)
next
  case False
  then have "2 ^ 53 \<le> n" by simp
  from to_double_range [OF this] have "2 ^ (floorlog 2 n - 1) \<le> to_double n" by blast
  moreover have "(0::nat) < 2 ^ (floorlog 2 n - 1)" by simp
  ultimately show ?thesis by linarith
qed

lemma double_quotient_le_1:
  assumes "a \<le> b" "0 < b"
  shows "double_quotient a b \<le> 1"
proof (cases "a = 0")
  case True
  then show ?thesis by (simp add: double_quotient_def)
next
  case False
  define d where "d = int (floorlog 2 a) - int (floorlog 2 b)"
  define e where "e = (if (if 0 \<le> d then b * 2 ^ nat d \<le> a else b \<le> a * 2 ^ nat (- d))
                    then d else d - 1)"
  have "d \<le> 0" using floorlog_mono [OF assms(1), of 2] by (simp add: d_def)
  then have s: "0 \<le> 52 - e" by (simp add: e_def)
  have dq: "double_quotient a b =
      real (round_half_even_div (a * 2 ^ nat (52 - e)) b) / 2 ^ nat (52 - e)"
    unfolding double_quotient_def Let_def d_def [symmetric] e_def [symmetric]
    using False s by simp
  have "round_half_even_div (a * 2 ^ nat (52 - e)) b \<le> 2 ^ nat (52 - e)"
    using assms by (rule rhe_scaled_le)
  then have "real (round_half_even_div (a * 2 ^ nat (52 - e)) b) \<le> 2 ^ nat (52 - e)"
    by (metis of_nat_le_iff of_nat_numeral of_nat_power)
  then show ?thesis unfolding dq by (simp add: divide_le_eq_1)
qed

lemma float_div_le_1:
  assumes "n \<le> m" "0 < m"
  shows "float_div n m \<le> 1"
  unfolding float_div_def
  using to_double_mono [OF assms(1)] to_double_pos [OF assms(2)]
  by (rule double_quotient_le_1)

lemma float_div_values:
  "float_div 5 6 = 7505999378950827 / 9007199254740992"
  "float_div 2 3 = 6004799503160661 / 9007199254740992"
  "float_div 4 5 = 3602879701896397 / 4503599627370496"
  "float_div 6 6 = 1"
  by (simp_all add: float_div_def to_double_def double_quotient_def round_half_even_div_def
        compute_floorlog Let_def)


lemma rhe_error:
  assumes "0 < b"
  shows "\<bar>real (round_half_even_div a b) - real a / real b\<bar> \<le> 1 / 2"
proof -
  define q where "q = a div b"
  define r where "r = a mod b"
  have ab: "real a / real b = real q + real r / real b"
    unfolding q_def r_def by (rule of_nat_of_nat_div_aux)
  have rb: "r < b" using assms by (simp add: r_def)
  have bpos: "0 < real b" using assms by simp
  consider "2 * r < b" | "b < 2 * r" | "2 * r = b" by linarith
  then show ?thesis
  proof cases
    case 1
    then have v: "round_half_even_div a b = q"
      by (simp add: round_half_even_div_def Let_def q_def r_def)
    from 1 have "2 * real r < real b" by (metis of_nat_less_iff of_nat_mult of_nat_numeral)
    then have "real r / real b < 1 / 2" using bpos by (simp add: field_simps)
    moreover have "0 \<le> real r / real b" by simp
    ultimately show ?thesis unfolding v ab by simp
  next
    case 2
    then have v: "round_half_even_div a b = q + 1"
      by (simp add: round_half_even_div_def Let_def q_def r_def)
    from 2 have "real b < 2 * real r" by (metis of_nat_less_iff of_nat_mult of_nat_numeral)
    then have "1 / 2 < real r / real b" using bpos by (simp add: field_simps)
    moreover have "real r / real b < 1" using rb bpos by simp
    ultimately show ?thesis unfolding v ab by simp
  next
    case 3
    then have "2 * real r = real b" by (metis of_nat_mult of_nat_numeral)
    then have h: "real r / real b = 1 / 2" using bpos by (simp add: field_simps)
    have "round_half_even_div a b = q \<or> round_half_even_div a b = q + 1"
      using 3 by (simp add: round_half_even_div_def Let_def q_def r_def)
    then show ?thesis unfolding ab h by auto
  qed
qed

lemma abs_diff_scaled:
  fixes x y c k :: real
  assumes "\<bar>x - y\<bar> \<le> c" "0 < k"
  shows "\<bar>x / k - y / k\<bar> \<le> c / k"
proof -
  have "x / k - y / k = (x - y) / k" by (simp add: diff_divide_distrib)
  then have "\<bar>x / k - y / k\<bar> = \<bar>x - y\<bar> / k"
    using assms(2) by (simp add: abs_divide)
  also have "\<dots> \<le> c / k" using assms by (simp add: divide_right_mono)
  finally show ?thesis .
qed

lemma float_div_error:
  assumes "n \<le> m" "0 < m" "m < 2 ^ 53"
  shows "\<bar>float_div n m - real n / real m\<bar> \<le> 1 / 2 ^ 53"
proof (cases "n = 0")
  case True
  then show ?thesis
    using assms by (simp add: float_div_def to_double_def double_quotient_def)
next
  case False
  have td: "to_double n = n" "to_double m = m" using assms by (simp_all add: to_double_def)
  define d where "d = int (floorlog 2 n) - int (floorlog 2 m)"
  define e where "e = (if (if 0 \<le> d then m * 2 ^ nat d \<le> n else m \<le> n * 2 ^ nat (- d))
                    then d else d - 1)"
  define S where "S = nat (52 - e)"
  have "d \<le> 0" using floorlog_mono [OF assms(1), of 2] by (simp add: d_def)
  then have e0: "e \<le> 0" by (simp add: e_def)
  then have s: "0 \<le> 52 - e" and S52: "52 \<le> S" by (simp_all add: S_def)
  have dq: "float_div n m = real (round_half_even_div (n * 2 ^ S) m) / 2 ^ S"
    unfolding float_div_def td double_quotient_def Let_def d_def [symmetric] e_def [symmetric]
      S_def
    using False s by simp
  have "\<bar>real (round_half_even_div (n * 2 ^ S) m) - real (n * 2 ^ S) / real m\<bar> \<le> 1 / 2"
    using assms(2) by (rule rhe_error)
  then have "\<bar>real (round_half_even_div (n * 2 ^ S) m) / 2 ^ S -
              (real (n * 2 ^ S) / real m) / 2 ^ S\<bar> \<le> (1 / 2) / 2 ^ S"
    by (rule abs_diff_scaled) simp
  moreover have "(real (n * 2 ^ S) / real m) / 2 ^ S = real n / real m" by simp
  moreover have "(1 / 2) / (2::real) ^ S \<le> 1 / 2 ^ 53"
  proof -
    have "(2::real) ^ 53 \<le> 2 ^ Suc S" using S52 by (intro power_increasing) simp_all
    then have "1 / (2::real) ^ Suc S \<le> 1 / 2 ^ 53"
      by (intro divide_left_mono) simp_all
    then show ?thesis by simp
  qed
  ultimately show ?thesis unfolding dq by linarith
qed

lemma float_div_values_Suc:
  "float_div (Suc (Suc (Suc (Suc (Suc 0))))) (Suc (Suc (Suc (Suc (Suc (Suc 0)))))) =
     7505999378950827 / 9007199254740992"
  "float_div (Suc (Suc 0)) (Suc (Suc (Suc 0))) = 6004799503160661 / 9007199254740992"
  "float_div (Suc (Suc (Suc (Suc (Suc (Suc 0)))))) (Suc (Suc (Suc (Suc (Suc (Suc 0)))))) = 1"
proof -
  have "float_div (Suc (Suc (Suc (Suc (Suc 0))))) (Suc (Suc (Suc (Suc (Suc (Suc 0)))))) =
      float_div 5 6"
    by (rule arg_cong2 [where f = float_div]) simp_all
  then show "float_div (Suc (Suc (Suc (Suc (Suc 0))))) (Suc (Suc (Suc (Suc (Suc (Suc 0)))))) =
     7505999378950827 / 9007199254740992"
    by (simp only: float_div_values)
  have "float_div (Suc (Suc 0)) (Suc (Suc (Suc 0))) = float_div 2 3"
    by (rule arg_cong2 [where f = float_div]) simp_all
  then show "float_div (Suc (Suc 0)) (Suc (Suc (Suc 0))) = 6004799503160661 / 9007199254740992"
    by (simp only: float_div_values)
  have "float_div (Suc (Suc (Suc (Suc (Suc (Suc 0)))))) (Suc (Suc (Suc (Suc (Suc (Suc 0)))))) =
      float_div 6 6"
    by (rule arg_cong2 [where f = float_div]) simp_all
  then show "float_div (Suc (Suc (Suc (Suc (Suc (Suc 0)))))) (Suc (Suc (Suc (Suc (Suc (Suc 0)))))) = 1"
    by (simp only: float_div_values)
qed

subsection \<open>The similarity test\<close>

text \<open>
  C2 as stated does not hold: with the exact quotient, "abc" and "abd" at the threshold
  0.6666666666666666 (a double in (0, 1], slightly below two thirds) would match, since
  2/3 exceeds it; the code divides in double precision, where \<^verbatim>\<open>float(2) / 3\<close> is that
  same double, and reports no match.
\<close>

theorem exact_ratio_counterexample:
  "(0::real) < 6004799503160661 / 9007199254740992 \<and>
   (6004799503160661 / 9007199254740992 :: real) \<le> 1 \<and>
   strip ''abc'' \<noteq> [] \<and> strip ''abd'' \<noteq> [] \<and>
   real (length (longest_common_prefix (strip ''abc'') (strip ''abd''))) /
     real (length (strip ''abc'')) > 6004799503160661 / 9007199254740992 \<and>
   \<not> lines_match
     \<lparr>filename = Some ''a.txt'', left_line_num = Some 5, right_line_num = None,
      line_contents = ''abc''\<rparr>
     \<lparr>filename = Some ''a.txt'', left_line_num = None, right_line_num = Some 5,
      line_contents = ''abd''\<rparr>
     [''min_prefix_length'' \<mapsto> 6004799503160661 / 9007199254740992]"
  by (simp add: lines_match_def Let_def commonprefix_pair strip_literals params_get_def
        float_div_values_Suc)

text \<open>
  C2, amended. With \<open>a\<close> and \<open>b\<close> the whitespace-trimmed texts of the two lines, \<open>n\<close>
  the length of their longest common prefix and \<open>p\<close> the \<^verbatim>\<open>min_prefix_length\<close>
  parameter (the double 0.8 when the dictionary has no such key), the similarity test
  succeeds exactly when both texts are empty, or both are non-empty and the
  double-precision quotient \<^verbatim>\<open>float(n) / len(a)\<close>, or \<^verbatim>\<open>float(n) / len(b)\<close>, is
  strictly greater than \<open>p\<close>. For texts shorter than \<open>2^53\<close> each of these quotients is
  within \<open>2^-53\<close> of the exact ratio. In particular "foobar" and "foobaz" match at 0.8 and
  at the default and do not match at 0.9; two empty texts match; an empty text does not
  match "x".
\<close>

theorem lines_match_prefix_ratio:
  "lines_match l1 l2 params =
     (let a = strip (line_contents l1); b = strip (line_contents l2);
          p = params_get params ''min_prefix_length'' double_0_8;
          n = length (longest_common_prefix a b)
      in (a = [] \<and> b = []) \<or>
         (a \<noteq> [] \<and> b \<noteq> [] \<and> (float_div n (length a) > p \<or> float_div n (length b) > p))) \<and>
   (let a = strip (line_contents l1); b = strip (line_contents l2);
          n = length (longest_common_prefix a b)
      in a \<noteq> [] \<and> b \<noteq> [] \<and> length a < 2 ^ 53 \<and> length b < 2 ^ 53 \<longrightarrow>
         \<bar>float_div n (length a) - real n / real (length a)\<bar> \<le> 1 / 2 ^ 53 \<and>
         \<bar>float_div n (length b) - real n / real (length b)\<bar> \<le> 1 / 2 ^ 53) \<and>
   lines_match (l1\<lparr>line_contents := ''foobar''\<rparr>) (l2\<lparr>line_contents := ''foobaz''\<rparr>)
     [''min_prefix_length'' \<mapsto> double_0_8] \<and>
   lines_match (l1\<lparr>line_contents := ''foobar''\<rparr>) (l2\<lparr>line_contents := ''foobaz''\<rparr>)
     Map.empty \<and>
   \<not> lines_match (l1\<lparr>line_contents := ''foobar''\<rparr>) (l2\<lparr>line_contents := ''foobaz''\<rparr>)
     [''min_prefix_length'' \<mapsto> 8106479329266893 / 9007199254740992] \<and>
   lines_match (l1\<lparr>line_contents := []\<rparr>) (l2\<lparr>line_contents := []\<rparr>) params \<and>
   \<not> lines_match (l1\<lparr>line_contents := []\<rparr>) (l2\<lparr>line_contents := ''x''\<rparr>) params"
proof -
  have general: "lines_match l1 l2 params =
     (let a = strip (line_contents l1); b = strip (line_contents l2);
          p = params_get params ''min_prefix_length'' double_0_8;
          n = length (longest_common_prefix a b)
      in (a = [] \<and> b = []) \<or>
         (a \<noteq> [] \<and> b \<noteq> [] \<and> (float_div n (length a) > p \<or> float_div n (length b) > p)))"
    by (auto simp: lines_match_def Let_def commonprefix_pair prefix_loop_longest)
  have acc: "(let a = strip (line_contents l1); b = strip (line_contents l2);
          n = length (longest_common_prefix a b)
      in a \<noteq> [] \<and> b \<noteq> [] \<and> length a < 2 ^ 53 \<and> length b < 2 ^ 53 \<longrightarrow>
         \<bar>float_div n (length a) - real n / real (length a)\<bar> \<le> 1 / 2 ^ 53 \<and>
         \<bar>float_div n (length b) - real n / real (length b)\<bar> \<le> 1 / 2 ^ 53)"
    unfolding Let_def
    by (intro impI conjI float_div_error longest_common_prefix_length_le) simp_all
  have m8: "lines_match (l1\<lparr>line_contents := ''foobar''\<rparr>) (l2\<lparr>line_contents := ''foobaz''\<rparr>)
     [''min_prefix_length'' \<mapsto> double_0_8]"
    by (simp add: lines_match_def Let_def commonprefix_pair strip_literals params_get_def
          float_div_values_Suc double_0_8_def)
  have md: "lines_match (l1\<lparr>line_contents := ''foobar''\<rparr>) (l2\<lparr>line_contents := ''foobaz''\<rparr>)
     Map.empty"
    by (simp add: lines_match_def Let_def commonprefix_pair strip_literals params_get_def
          float_div_values_Suc double_0_8_def)
  have m9: "\<not> lines_match (l1\<lparr>line_contents := ''foobar''\<rparr>) (l2\<lparr>line_contents := ''foobaz''\<rparr>)
     [''min_prefix_length'' \<mapsto> 8106479329266893 / 9007199254740992]"
    by (simp add: lines_match_def Let_def commonprefix_pair strip_literals params_get_def
          float_div_values_Suc)
  have e1: "lines_match (l1\<lparr>line_contents := []\<rparr>) (l2\<lparr>line_contents := []\<rparr>) params"
    by (simp add: lines_match_def Let_def strip_literals)
  have e2: "\<not> lines_match (l1\<lparr>line_contents := []\<rparr>) (l2\<lparr>line_contents := ''x''\<rparr>) params"
    by (simp add: lines_match_def Let_def strip_literals)
  from general acc m8 md m9 e1 e2 show ?thesis by blast
qed

theorem lines_match_prefix_ratio_witness:
  "strip ''foobar'' \<noteq> [] \<and> strip ''foobaz'' \<noteq> [] \<and>
   length (strip ''foobar'') < 2 ^ 53 \<and> length (strip ''foobaz'') < 2 ^ 53 \<and>
   float_div (length (longest_common_prefix (strip ''foobar'') (strip ''foobaz'')))
     (length (strip ''foobar'')) > params_get Map.empty ''min_prefix_length'' double_0_8 \<and>
   \<bar>float_div (length (longest_common_prefix (strip ''foobar'') (strip ''foobaz'')))
      (length (strip ''foobar'')) - 5 / 6\<bar> \<le> 1 / 2 ^ 53 \<and>
   lines_match
     \<lparr>filename = Some ''a.txt'', left_line_num = Some 5, right_line_num = None,
      line_contents = ''foobar''\<rparr>
     \<lparr>filename = Some ''a.txt'', left_line_num = None, right_line_num = Some 5,
      line_contents = ''foobaz''\<rparr> Map.empty"
  using lines_match_prefix_ratio
    [of "\<lparr>filename = Some ''a.txt'', left_line_num = Some 5, right_line_num = None,
      line_contents = ''foobar''\<rparr>"
        "\<lparr>filename = Some ''a.txt'', left_line_num = None, right_line_num = Some 5,
      line_contents = ''foobaz''\<rparr>" Map.empty]
  by (simp add: strip_literals params_get_def float_div_values_Suc double_0_8_def)

text \<open>
  C8. The similarity test is symmetric in its two lines, for every parameter dictionary.
\<close>

theorem lines_match_symmetric: "lines_match l1 l2 params = lines_match l2 l1 params"
  by (auto simp: lines_match_def Let_def commonprefix_pair
        prefix_loop_commute [of "strip (line_contents l1)"])

theorem lines_match_symmetric_witness:
  "lines_match
     \<lparr>filename = Some ''a.txt'', left_line_num = Some 5, right_line_num = None,
      line_contents = ''foobar''\<rparr>
     \<lparr>filename = Some ''a.txt'', left_line_num = None, right_line_num = Some 5,
      line_contents = ''foobaz''\<rparr> Map.empty
   = lines_match
     \<lparr>filename = Some ''a.txt'', left_line_num = None, right_line_num = Some 5,
      line_contents = ''foobaz''\<rparr>
     \<lparr>filename = Some ''a.txt'', left_line_num = Some 5, right_line_num = None,
      line_contents = ''foobar''\<rparr> Map.empty"
  by (rule lines_match_symmetric)

text \<open>
  C10. With \<^verbatim>\<open>min_prefix_length\<close> set to 1.0 the test succeeds only for two blank
  lines: every pair with a non-blank line fails, also two lines with the same text.
\<close>

theorem lines_match_threshold_one:
  "params ''min_prefix_length'' = Some 1 \<Longrightarrow>
   lines_match l1 l2 params =
     (strip (line_contents l1) = [] \<and> strip (line_contents l2) = [])"
proof -
  assume p: "params ''min_prefix_length'' = Some 1"
  define a where "a = strip (line_contents l1)"
  define b where "b = strip (line_contents l2)"
  have "\<not> float_div (length (prefix_loop a b)) (length a) > 1" if "a \<noteq> []"
    using float_div_le_1 [OF prefix_loop_length_le [of a b]] that by (simp add: not_less)
  moreover have "\<not> float_div (length (prefix_loop a b)) (length b) > 1" if "b \<noteq> []"
    using float_div_le_1 [of "length (prefix_loop a b)" "length b"]
      prefix_loop_length_le [of b a] that
    by (simp add: not_less prefix_loop_commute [of a b])
  ultimately show ?thesis
    unfolding lines_match_def Let_def commonprefix_pair params_get_def p a_def b_def
    by (auto split: if_splits)
qed

theorem lines_match_threshold_one_witness:
  "[''min_prefix_length'' \<mapsto> (1::real)] ''min_prefix_length'' = Some 1 \<and>
   \<not> lines_match
     \<lparr>filename = Some ''a.txt'', left_line_num = Some 5, right_line_num = None,
      line_contents = ''foobar''\<rparr>
     \<lparr>filename = Some ''a.txt'', left_line_num = None, right_line_num = Some 5,
      line_contents = ''foobar''\<rparr> [''min_prefix_length'' \<mapsto> 1]"
  using lines_match_threshold_one
    [of "[''min_prefix_length'' \<mapsto> 1]"
        "\<lparr>filename = Some ''a.txt'', left_line_num = Some 5, right_line_num = None,
      line_contents = ''foobar''\<rparr>"
        "\<lparr>filename = Some ''a.txt'', left_line_num = None, right_line_num = Some 5,
      line_contents = ''foobar''\<rparr>"]
  by (simp add: strip_literals)

section \<open>Properties of the annotation lookups and of revision equality\<close>

lemma get_line_current_loop_absent:
  "n \<notin> current_line_number ` set ls \<Longrightarrow> get_line_current_loop ls n = Inl KeyError"
  by (induction ls) auto

lemma get_line_orig_loop_absent:
  "n \<notin> orig_line_number ` set ls \<Longrightarrow> get_line_orig_loop ls n = Inl KeyError"
  by (induction ls) auto

lemma get_line_current_loop_present:
  "n \<in> current_line_number ` set ls \<Longrightarrow>
   \<exists>l \<in> set ls. current_line_number l = n \<and> get_line_current_loop ls n = Inr l"
  by (induction ls) auto

lemma get_line_orig_loop_present:
  "n \<in> orig_line_number ` set ls \<Longrightarrow>
   \<exists>l \<in> set ls. orig_line_number l = n \<and> get_line_orig_loop ls n = Inr l"
  by (induction ls) auto

text \<open>
  C6. For every file annotation and every line number that none of its entries has as
  current line number, the lookup by current line number fails with \<open>KeyError\<close>; the
  same holds for the lookup by original line number. Neither returns a value.
\<close>

theorem lookup_absent_fails:
  "(n \<notin> current_line_number ` set (fb_lines b) \<longrightarrow> get_line_current b n = Inl KeyError) \<and>
   (n \<notin> orig_line_number ` set (fb_lines b) \<longrightarrow> get_line_orig b n = Inl KeyError)"
  by (simp add: get_line_current_def get_line_orig_def
        get_line_current_loop_absent get_line_orig_loop_absent)

theorem lookup_absent_fails_witness:
  "(3::int) \<notin> current_line_number ` set (fb_lines
      \<lparr>fb_commit_hash = Some ''HEAD'', fb_filename = ''a.txt'',
       fb_lines = [\<lparr>lb_filename = ''a.txt'', orig_line_number = 1, current_line_number = 1,
                    commit_hash = ''abc'', lb_line_contents = ''x''\<rparr>,
                   \<lparr>lb_filename = ''a.txt'', orig_line_number = 5, current_line_number = 2,
                    commit_hash = ''def'', lb_line_contents = ''y''\<rparr>]\<rparr>) \<and>
   get_line_current
      \<lparr>fb_commit_hash = Some ''HEAD'', fb_filename = ''a.txt'',
       fb_lines = [\<lparr>lb_filename = ''a.txt'', orig_line_number = 1, current_line_number = 1,
                    commit_hash = ''abc'', lb_line_contents = ''x''\<rparr>,
                   \<lparr>lb_filename = ''a.txt'', orig_line_number = 5, current_line_number = 2,
                    commit_hash = ''def'', lb_line_contents = ''y''\<rparr>]\<rparr> 3 = Inl KeyError \<and>
   (3::int) \<notin> orig_line_number ` set (fb_lines
      \<lparr>fb_commit_hash = Some ''HEAD'', fb_filename = ''a.txt'',
       fb_lines = [\<lparr>lb_filename = ''a.txt'', orig_line_number = 1, current_line_number = 1,
                    commit_hash = ''abc'', lb_line_contents = ''x''\<rparr>,
                   \<lparr>lb_filename = ''a.txt'', orig_line_number = 5, current_line_number = 2,
                    commit_hash = ''def'', lb_line_contents = ''y''\<rparr>]\<rparr>) \<and>
   get_line_orig
      \<lparr>fb_commit_hash = Some ''HEAD'', fb_filename = ''a.txt'',
       fb_lines = [\<lparr>lb_filename = ''a.txt'', orig_line_number = 1, current_line_number = 1,
                    commit_hash = ''abc'', lb_line_contents = ''x''\<rparr>,
                   \<lparr>lb_filename = ''a.txt'', orig_line_number = 5, current_line_number = 2,
                    commit_hash = ''def'', lb_line_contents = ''y''\<rparr>]\<rparr> 3 = Inl KeyError"
  using lookup_absent_fails
    [of 3 "\<lparr>fb_commit_hash = Some ''HEAD'', fb_filename = ''a.txt'',
       fb_lines = [\<lparr>lb_filename = ''a.txt'', orig_line_number = 1, current_line_number = 1,
                    commit_hash = ''abc'', lb_line_contents = ''x''\<rparr>,
                   \<lparr>lb_filename = ''a.txt'', orig_line_number = 5, current_line_number = 2,
                    commit_hash = ''def'', lb_line_contents = ''y''\<rparr>]\<rparr>"]
  by simp

text \<open>
  C9. Two revisions are equal exactly when their resolved hashes are equal; a revision
  stays equal to itself whatever its author, date, message and file diffs become.
\<close>

theorem Commit_eq_hash_only:
  "Commit_eq c1 c2 = (hash c1 = hash c2) \<and>
   Commit_eq c (c\<lparr>author := a, date := d, file_diffs := fs, commit_message := m\<rparr>)"
  by (simp add: Commit_eq_def)

section \<open>Properties of the change-set parser\<close>

lemma startswith_append: "startswith (lit @ r) lit"
  by (induction lit) auto

lemma expect_append: "expect lit (lit @ r) = Some r"
  by (simp add: expect_def startswith_append)

lemma digits_plus_run:
  assumes "ds \<noteq> []" "list_all is_digit ds" "r = [] \<or> \<not> is_digit (hd r)"
  shows "digits_plus (ds @ r) = Some (ds, r)"
proof -
  have all: "\<forall>c \<in> set ds. is_digit c"
    using assms(2) by (simp add: list_all_iff)
  have tw: "takeWhile is_digit (ds @ r) = ds"
  proof (cases r)
    case Nil
    with all show ?thesis by simp
  next
    case (Cons x xs)
    with assms(3) have "\<not> is_digit x" by simp
    with all Cons show ?thesis by (simp add: takeWhile_tail)
  qed
  have dw: "dropWhile is_digit (ds @ r) = r"
  proof (cases r)
    case Nil
    with all show ?thesis by simp
  next
    case (Cons x xs)
    with assms(3) have "\<not> is_digit x" by simp
    with all Cons show ?thesis by (simp add: dropWhile_append3)
  qed
  from tw dw assms(1) show ?thesis by (simp add: digits_plus_def)
qed

lemma position_match_header:
  assumes "g1 \<noteq> []" "c1 \<noteq> []" "g2 \<noteq> []" "c2 \<noteq> []"
    and "list_all is_digit g1" "list_all is_digit c1"
    and "list_all is_digit g2" "list_all is_digit c2"
  shows "position_match (''@@ -'' @ g1 @ '','' @ c1 @ '' +'' @ g2 @ '','' @ c2 @ '' @@'' @ rest)
         = Some (int_of_digits g1, int_of_digits g2)"
proof -
  have d1: "digits_plus (g1 @ '','' @ c1 @ '' +'' @ g2 @ '','' @ c2 @ '' @@'' @ rest)
            = Some (g1, '','' @ c1 @ '' +'' @ g2 @ '','' @ c2 @ '' @@'' @ rest)"
    using assms by (intro digits_plus_run) (simp_all add: is_digit_def)
  have d2: "digits_plus (c1 @ '' +'' @ g2 @ '','' @ c2 @ '' @@'' @ rest)
            = Some (c1, '' +'' @ g2 @ '','' @ c2 @ '' @@'' @ rest)"
    using assms by (intro digits_plus_run) (simp_all add: is_digit_def)
  have d3: "digits_plus (g2 @ '','' @ c2 @ '' @@'' @ rest)
            = Some (g2, '','' @ c2 @ '' @@'' @ rest)"
    using assms by (intro digits_plus_run) (simp_all add: is_digit_def)
  have d4: "digits_plus (c2 @ '' @@'' @ rest) = Some (c2, '' @@'' @ rest)"
    using assms by (intro digits_plus_run) (simp_all add: is_digit_def)
  show ?thesis
    unfolding position_match_def
    by (simp only: expect_append d1 d2 d3 d4 Option.bind.simps prod.case)
qed

lemma position_match_starts:
  "position_match line = Some x \<Longrightarrow> startswith line ''@@ -''"
  by (auto simp: position_match_def expect_def Option.bind_eq_Some_conv split: if_splits)

lemma startswith_at_not_others:
  assumes "startswith line ''@@ -''"
  shows "\<not> startswith line ''diff''" "\<not> startswith line ''index''"
    "\<not> startswith line ''--- a/''" "\<not> startswith line ''+++ b/''"
  using assms by (cases line; simp)+

lemma FileDiff_step_header:
  "position_match line = Some (l, r) \<Longrightarrow>
   FileDiff_step v line =
     Inr (v\<lparr>parsing_contents := True, cur_left_line_num := l, cur_right_line_num := r\<rparr>)"
  using startswith_at_not_others [OF position_match_starts [of line "(l, r)"]]
  by (simp add: FileDiff_step_def)

lemma position_match_body_None:
  "position_match (CHR '' '' # t) = None"
  "position_match (CHR ''-'' # t) = None"
  "position_match (CHR ''+'' # t) = None"
  by (simp_all add: position_match_def expect_def)

lemma FileDiff_step_context:
  "parsing_contents v \<Longrightarrow>
   FileDiff_step v (CHR '' '' # t) =
     Inr (v\<lparr>self_lines := self_lines v @
            [\<lparr>filename = self_filename v, left_line_num = Some (cur_left_line_num v),
              right_line_num = Some (cur_right_line_num v), line_contents = rstrip t\<rparr>],
          cur_left_line_num := cur_left_line_num v + 1,
          cur_right_line_num := cur_right_line_num v + 1\<rparr>)"
  by (simp add: FileDiff_step_def position_match_body_None)

lemma FileDiff_step_deletion:
  "parsing_contents v \<Longrightarrow>
   FileDiff_step v (CHR ''-'' # t) =
     Inr (v\<lparr>self_lines := self_lines v @
            [\<lparr>filename = self_filename v, left_line_num = Some (cur_left_line_num v),
              right_line_num = None, line_contents = rstrip t\<rparr>],
          cur_left_line_num := cur_left_line_num v + 1\<rparr>)"
  by (simp add: FileDiff_step_def position_match_body_None)

lemma FileDiff_step_addition:
  "parsing_contents v \<Longrightarrow>
   FileDiff_step v (CHR ''+'' # t) =
     Inr (v\<lparr>self_lines := self_lines v @
            [\<lparr>filename = self_filename v, left_line_num = None,
              right_line_num = Some (cur_right_line_num v), line_contents = rstrip t\<rparr>],
          cur_right_line_num := cur_right_line_num v + 1\<rparr>)"
  by (simp add: FileDiff_step_def position_match_body_None)

lemma FileDiff_step_other:
  "parsing_contents v \<Longrightarrow> position_match line = None \<Longrightarrow>
   \<not> startswith line '' '' \<Longrightarrow> \<not> startswith line ''-'' \<Longrightarrow> \<not> startswith line ''+'' \<Longrightarrow>
   FileDiff_step v line = Inl AssertionError"
  by (simp add: FileDiff_step_def)

lemma synthetic_patch_parse:
  "FileDiff_init
     [''diff --git a/f b/f'', ''index 1..2 100644'', ''--- a/f'', ''+++ b/f'',
      ''@@ -10,3 +10,4 @@'', '' a'', ''+b  '', '' c'', '' d''] =
   Inr \<lparr>fd_lines =
         [\<lparr>filename = Some ''f'', left_line_num = Some 10, right_line_num = Some 10,
           line_contents = ''a''\<rparr>,
          \<lparr>filename = Some ''f'', left_line_num = None, right_line_num = Some 11,
           line_contents = ''b''\<rparr>,
          \<lparr>filename = Some ''f'', left_line_num = Some 11, right_line_num = Some 12,
           line_contents = ''c''\<rparr>,
          \<lparr>filename = Some ''f'', left_line_num = Some 12, right_line_num = Some 13,
           line_contents = ''d''\<rparr>],
        fd_filename = Some ''f''\<rparr>"
  by (simp add: FileDiff_init_def FileDiff_vars_init_def FileDiff_step_def position_match_def
        expect_def digits_plus_def is_digit_def int_of_digits_def digit_val_def rstrip_def
        py_isspace_def)

lemma FileDiff_loop_append:
  "FileDiff_loop v (xs @ ys) =
     (case FileDiff_loop v xs of Inl e \<Rightarrow> Inl e | Inr v' \<Rightarrow> FileDiff_loop v' ys)"
  by (induction xs arbitrary: v) (auto split: sum.splits)

lemma FileDiff_step_extends:
  "FileDiff_step v line = Inr v' \<Longrightarrow> \<exists>ext. self_lines v' = self_lines v @ ext"
  by (auto simp: FileDiff_step_def split: if_splits option.splits)

lemma FileDiff_loop_extends:
  "FileDiff_loop v ls = Inr v' \<Longrightarrow> \<exists>ext. self_lines v' = self_lines v @ ext"
proof (induction ls arbitrary: v)
  case Nil
  then show ?case by simp
next
  case (Cons x xs)
  then obtain v1 where s: "FileDiff_step v x = Inr v1" and l: "FileDiff_loop v1 xs = Inr v'"
    by (auto split: sum.splits)
  from FileDiff_step_extends [OF s] Cons.IH [OF l] show ?case by auto
qed

lemma FileDiff_step_body_cases:
  assumes "parsing_contents v" "position_match line = None" "FileDiff_step v line = Inr v'"
  shows "\<exists>dl. self_lines v' = self_lines v @ [dl] \<and> parsing_contents v' \<and>
     ((left_line_num dl = Some (cur_left_line_num v) \<and>
       right_line_num dl = Some (cur_right_line_num v) \<and>
       cur_left_line_num v' = cur_left_line_num v + 1 \<and>
       cur_right_line_num v' = cur_right_line_num v + 1) \<or>
      (left_line_num dl = Some (cur_left_line_num v) \<and> right_line_num dl = None \<and>
       cur_left_line_num v' = cur_left_line_num v + 1 \<and>
       cur_right_line_num v' = cur_right_line_num v) \<or>
      (left_line_num dl = None \<and> right_line_num dl = Some (cur_right_line_num v) \<and>
       cur_left_line_num v' = cur_left_line_num v \<and>
       cur_right_line_num v' = cur_right_line_num v + 1))"
  using assms by (auto simp: FileDiff_step_def split: if_splits)

lemma hunk_body_consecutive:
  "parsing_contents v \<Longrightarrow> \<forall>line \<in> set body. position_match line = None \<Longrightarrow>
   FileDiff_loop v body = Inr v' \<Longrightarrow>
   \<exists>new. self_lines v' = self_lines v @ new \<and> length new = length body \<and>
     consecutive_from (cur_left_line_num v) (left_nums new) \<and>
     consecutive_from (cur_right_line_num v) (right_nums new)"
proof (induction body arbitrary: v)
  case Nil
  then show ?case by (simp add: left_nums_def right_nums_def map_filter_simps)
next
  case (Cons x xs)
  from Cons.prems(3) obtain v1 where
    s: "FileDiff_step v x = Inr v1" and l: "FileDiff_loop v1 xs = Inr v'"
    by (auto split: sum.splits)
  from Cons.prems(2) have px: "position_match x = None"
    and pxs: "\<forall>line \<in> set xs. position_match line = None" by simp_all
  from FileDiff_step_body_cases [OF Cons.prems(1) px s] obtain dl where
    dl: "self_lines v1 = self_lines v @ [dl]" and pc: "parsing_contents v1" and
    kinds: "(left_line_num dl = Some (cur_left_line_num v) \<and>
       right_line_num dl = Some (cur_right_line_num v) \<and>
       cur_left_line_num v1 = cur_left_line_num v + 1 \<and>
       cur_right_line_num v1 = cur_right_line_num v + 1) \<or>
      (left_line_num dl = Some (cur_left_line_num v) \<and> right_line_num dl = None \<and>
       cur_left_line_num v1 = cur_left_line_num v + 1 \<and>
       cur_right_line_num v1 = cur_right_line_num v) \<or>
      (left_line_num dl = None \<and> right_line_num dl = Some (cur_right_line_num v) \<and>
       cur_left_line_num v1 = cur_left_line_num v \<and>
       cur_right_line_num v1 = cur_right_line_num v + 1)"
    by blast
  from Cons.IH [OF pc pxs l] obtain new where
    n1: "self_lines v' = self_lines v1 @ new" and n2: "length new = length xs" and
    n3: "consecutive_from (cur_left_line_num v1) (left_nums new)" and
    n4: "consecutive_from (cur_right_line_num v1) (right_nums new)"
    by blast
  have "self_lines v' = self_lines v @ (dl # new)" using n1 dl by simp
  moreover have "length (dl # new) = length (x # xs)" using n2 by simp
  moreover have "consecutive_from (cur_left_line_num v) (left_nums (dl # new))"
    using kinds n3 by (auto simp: left_nums_def map_filter_simps)
  moreover have "consecutive_from (cur_right_line_num v) (right_nums (dl # new))"
    using kinds n4 by (auto simp: right_nums_def map_filter_simps)
  ultimately show ?case by blast
qed

lemma consecutive_from_nth:
  "consecutive_from n xs \<Longrightarrow> i < length xs \<Longrightarrow> xs ! i = n + int i"
proof (induction xs arbitrary: n i)
  case Nil
  then show ?case by simp
next
  case (Cons x xs)
  then show ?case by (cases i) auto
qed

text \<open>
  C7. In every file diff that the parser returns, the lines emitted for the body of one
  hunk (the lines between a hunk header and the next one) have pre-image numbers that,
  over the lines that have one, start at the header's pre-image start and advance by
  exactly one from each such line to the next; the same holds for the post-image numbers.
\<close>

theorem hunk_numbers_advance_by_one:
  assumes "FileDiff_init (pre @ hdr # body @ rest) = Inr fd"
    and "position_match hdr = Some (l, r)"
    and "\<forall>line \<in> set body. position_match line = None"
  shows "\<exists>before new after.
     fd_lines fd = before @ new @ after \<and> length new = length body \<and>
     (\<forall>i < length (left_nums new). left_nums new ! i = l + int i) \<and>
     (\<forall>i < length (right_nums new). right_nums new ! i = r + int i)"
proof -
  from assms(1) obtain v3 where
    v3: "FileDiff_loop FileDiff_vars_init (pre @ hdr # body @ rest) = Inr v3" and
    fd: "fd_lines fd = self_lines v3"
    by (auto simp: FileDiff_init_def split: sum.splits)
  from v3 obtain v0 where v0: "FileDiff_loop FileDiff_vars_init pre = Inr v0" and
    t0: "FileDiff_loop v0 (hdr # body @ rest) = Inr v3"
    by (auto simp: FileDiff_loop_append split: sum.splits)
  define v1 where "v1 = v0\<lparr>parsing_contents := True, cur_left_line_num := l,
    cur_right_line_num := r\<rparr>"
  have s1: "FileDiff_step v0 hdr = Inr v1"
    unfolding v1_def by (rule FileDiff_step_header [OF assms(2)])
  with t0 have t1: "FileDiff_loop v1 (body @ rest) = Inr v3" by simp
  then obtain v2 where v2: "FileDiff_loop v1 body = Inr v2" and
    t2: "FileDiff_loop v2 rest = Inr v3"
    by (auto simp: FileDiff_loop_append split: sum.splits)
  have pc: "parsing_contents v1" by (simp add: v1_def)
  from hunk_body_consecutive [OF pc assms(3) v2] obtain new where
    n1: "self_lines v2 = self_lines v1 @ new" and n2: "length new = length body" and
    n3: "consecutive_from (cur_left_line_num v1) (left_nums new)" and
    n4: "consecutive_from (cur_right_line_num v1) (right_nums new)"
    by blast
  from FileDiff_loop_extends [OF t2] obtain after where
    a: "self_lines v3 = self_lines v2 @ after" by blast
  have "fd_lines fd = self_lines v0 @ new @ after"
    using fd a n1 by (simp add: v1_def)
  moreover have "\<forall>i < length (left_nums new). left_nums new ! i = l + int i"
    using consecutive_from_nth [OF n3] by (simp add: v1_def)
  moreover have "\<forall>i < length (right_nums new). right_nums new ! i = r + int i"
    using consecutive_from_nth [OF n4] by (simp add: v1_def)
  ultimately show ?thesis using n2 by blast
qed

theorem hunk_numbers_advance_by_one_witness:
  "FileDiff_init
     ([''diff --git a/f b/f'', ''index 1..2 100644'', ''--- a/f'', ''+++ b/f''] @
      ''@@ -10,3 +10,4 @@'' # ['' a'', ''+b  '', '' c'', '' d''] @ []) =
   Inr \<lparr>fd_lines =
         [\<lparr>filename = Some ''f'', left_line_num = Some 10, right_line_num = Some 10,
           line_contents = ''a''\<rparr>,
          \<lparr>filename = Some ''f'', left_line_num = None, right_line_num = Some 11,
           line_contents = ''b''\<rparr>,
          \<lparr>filename = Some ''f'', left_line_num = Some 11, right_line_num = Some 12,
           line_contents = ''c''\<rparr>,
          \<lparr>filename = Some ''f'', left_line_num = Some 12, right_line_num = Some 13,
           line_contents = ''d''\<rparr>],
        fd_filename = Some ''f''\<rparr> \<and>
   position_match ''@@ -10,3 +10,4 @@'' = Some (10, 10) \<and>
   list_all (\<lambda>line. position_match line = None) ['' a'', ''+b  '', '' c'', '' d''] \<and>
   (\<exists>before new after.
     [\<lparr>filename = Some ''f'', left_line_num = Some 10, right_line_num = Some 10,
       line_contents = ''a''\<rparr>,
      \<lparr>filename = Some ''f'', left_line_num = None, right_line_num = Some 11,
       line_contents = ''b''\<rparr>,
      \<lparr>filename = Some ''f'', left_line_num = Some 11, right_line_num = Some 12,
       line_contents = ''c''\<rparr>,
      \<lparr>filename = Some ''f'', left_line_num = Some 12, right_line_num = Some 13,
       line_contents = ''d''\<rparr>] = before @ new @ after \<and>
     length new = length ['' a'', ''+b  '', '' c'', '' d''] \<and>
     (\<forall>i < length (left_nums new). left_nums new ! i = 10 + int i) \<and>
     (\<forall>i < length (right_nums new). right_nums new ! i = 10 + int i))"
proof -
  have a: "FileDiff_init
     ([''diff --git a/f b/f'', ''index 1..2 100644'', ''--- a/f'', ''+++ b/f''] @
      ''@@ -10,3 +10,4 @@'' # ['' a'', ''+b  '', '' c'', '' d''] @ []) =
   Inr \<lparr>fd_lines =
         [\<lparr>filename = Some ''f'', left_line_num = Some 10, right_line_num = Some 10,
           line_contents = ''a''\<rparr>,
          \<lparr>filename = Some ''f'', left_line_num = None, right_line_num = Some 11,
           line_contents = ''b''\<rparr>,
          \<lparr>filename = Some ''f'', left_line_num = Some 11, right_line_num = Some 12,
           line_contents = ''c''\<rparr>,
          \<lparr>filename = Some ''f'', left_line_num = Some 12, right_line_num = Some 13,
           line_contents = ''d''\<rparr>],
        fd_filename = Some ''f''\<rparr>"
    using synthetic_patch_parse by simp
  have b: "position_match ''@@ -10,3 +10,4 @@'' = Some (10, 10)"
    by (simp add: position_match_def expect_def digits_plus_def is_digit_def
          int_of_digits_def digit_val_def)
  have c: "\<forall>line \<in> set ['' a'', ''+b  '', '' c'', '' d'']. position_match line = None"
    by (simp add: position_match_body_None)
  from hunk_numbers_advance_by_one [OF a b c] a b c show ?thesis
    by simp
qed

section \<open>The parser emits what the specification says for a hunk body\<close>

lemma startswith_single:
  "startswith line [c] = (\<exists>t. line = c # t)"
  by (cases line) auto

lemma FileDiff_step_body:
  assumes "parsing_contents v" and "position_match line = None"
  shows "FileDiff_step v line =
     (if startswith line '' '' then
        Inr (v\<lparr>self_lines := self_lines v @
               [\<lparr>filename = self_filename v, left_line_num = Some (cur_left_line_num v),
                 right_line_num = Some (cur_right_line_num v),
                 line_contents = rstrip (drop 1 line)\<rparr>],
             cur_left_line_num := cur_left_line_num v + 1,
             cur_right_line_num := cur_right_line_num v + 1\<rparr>)
      else if startswith line ''-'' then
        Inr (v\<lparr>self_lines := self_lines v @
               [\<lparr>filename = self_filename v, left_line_num = Some (cur_left_line_num v),
                 right_line_num = None, line_contents = rstrip (drop 1 line)\<rparr>],
             cur_left_line_num := cur_left_line_num v + 1\<rparr>)
      else if startswith line ''+'' then
        Inr (v\<lparr>self_lines := self_lines v @
               [\<lparr>filename = self_filename v, left_line_num = None,
                 right_line_num = Some (cur_right_line_num v),
                 line_contents = rstrip (drop 1 line)\<rparr>],
             cur_right_line_num := cur_right_line_num v + 1\<rparr>)
      else Inl AssertionError)"
proof (cases "startswith line '' ''")
  case True
  then obtain t where "line = CHR '' '' # t" by (auto simp: startswith_single)
  then show ?thesis using FileDiff_step_context [OF assms(1), of t] by simp
next
  case nsp: False
  show ?thesis
  proof (cases "startswith line ''-''")
    case True
    then obtain t where "line = CHR ''-'' # t" by (auto simp: startswith_single)
    then show ?thesis using FileDiff_step_deletion [OF assms(1), of t] by simp
  next
    case nmi: False
    show ?thesis
    proof (cases "startswith line ''+''")
      case True
      then obtain t where "line = CHR ''+'' # t" by (auto simp: startswith_single)
      then show ?thesis using FileDiff_step_addition [OF assms(1), of t] by simp
    next
      case False
      with nsp nmi FileDiff_step_other [OF assms] show ?thesis by simp
    qed
  qed
qed

lemma FileDiff_loop_hunk_body:
  "parsing_contents v \<Longrightarrow> \<forall>line \<in> set body. position_match line = None \<Longrightarrow>
   FileDiff_loop v (body @ rest) =
     (case hunk_body_spec (self_filename v) (cur_left_line_num v) (cur_right_line_num v) body of
        Inl e \<Rightarrow> Inl e
      | Inr (new, l', r') \<Rightarrow>
          FileDiff_loop (v\<lparr>self_lines := self_lines v @ new, cur_left_line_num := l',
                           cur_right_line_num := r'\<rparr>) rest)"
proof (induction body arbitrary: v)
  case Nil
  then show ?case by simp
next
  case (Cons line body)
  from Cons.prems have pc: "parsing_contents v" and pl: "position_match line = None"
    and pb: "\<forall>line \<in> set body. position_match line = None" by simp_all
  note step = FileDiff_step_body [OF pc pl]
  show ?case
  proof (cases "startswith line '' ''")
    case True
    let ?v1 = "v\<lparr>self_lines := self_lines v @
               [\<lparr>filename = self_filename v, left_line_num = Some (cur_left_line_num v),
                 right_line_num = Some (cur_right_line_num v),
                 line_contents = rstrip (drop 1 line)\<rparr>],
             cur_left_line_num := cur_left_line_num v + 1,
             cur_right_line_num := cur_right_line_num v + 1\<rparr>"
    have s: "FileDiff_step v line = Inr ?v1" using step True by simp
    have "parsing_contents ?v1" using pc by simp
    from Cons.IH [OF this pb] show ?thesis
      using True by (simp add: s emit_def split: sum.splits prod.splits)
  next
    case nsp: False
    show ?thesis
    proof (cases "startswith line ''-''")
      case True
      let ?v1 = "v\<lparr>self_lines := self_lines v @
               [\<lparr>filename = self_filename v, left_line_num = Some (cur_left_line_num v),
                 right_line_num = None, line_contents = rstrip (drop 1 line)\<rparr>],
             cur_left_line_num := cur_left_line_num v + 1\<rparr>"
      have s: "FileDiff_step v line = Inr ?v1" using step nsp True by simp
      have "parsing_contents ?v1" using pc by simp
      from Cons.IH [OF this pb] show ?thesis
        using nsp True by (simp add: s emit_def split: sum.splits prod.splits)
    next
      case nmi: False
      show ?thesis
      proof (cases "startswith line ''+''")
        case True
        let ?v1 = "v\<lparr>self_lines := self_lines v @
               [\<lparr>filename = self_filename v, left_line_num = None,
                 right_line_num = Some (cur_right_line_num v),
                 line_contents = rstrip (drop 1 line)\<rparr>],
             cur_right_line_num := cur_right_line_num v + 1\<rparr>"
        have s: "FileDiff_step v line = Inr ?v1" using step nsp nmi True by simp
        have "parsing_contents ?v1" using pc by simp
        from Cons.IH [OF this pb] show ?thesis
          using nsp nmi True by (simp add: s emit_def split: sum.splits prod.splits)
      next
        case False
        with nsp nmi step show ?thesis by simp
      qed
    qed
  qed
qed

text \<open>
  C4. Take any patch text: lines \<open>pre\<close> that the parser accepts, then a hunk header
  \<open>hdr\<close>, then lines \<open>body\<close> up to the next hunk header, then any lines \<open>rest\<close>. A
  header \<^verbatim>\<open>@@ -g1,c1 +g2,c2 @@\<close> gives the start values \<open>g1\<close> and \<open>g2\<close>. From these two
  counters the parser emits for the body exactly what the specification says, line by
  line: for a leading space a diff line with both counters, then both incremented; for a
  leading \<open>-\<close> a diff line with the pre-image counter only, then that counter
  incremented; for a leading \<open>+\<close> a diff line with the post-image counter only, then
  that counter incremented; and for any other line the parse fails. The emitted lines
  are appended to those of \<open>pre\<close>, and the parse goes on with \<open>rest\<close> from the final
  counters.
\<close>

theorem parser_emits_hunk_body:
  assumes "FileDiff_loop FileDiff_vars_init pre = Inr v0"
    and "position_match hdr = Some (l, r)"
    and "\<forall>line \<in> set body. position_match line = None"
  shows "FileDiff_loop FileDiff_vars_init (pre @ hdr # body @ rest) =
       (case hunk_body_spec (self_filename v0) l r body of
          Inl e \<Rightarrow> Inl e
        | Inr (new, l', r') \<Rightarrow>
            FileDiff_loop (v0\<lparr>self_lines := self_lines v0 @ new, parsing_contents := True,
                              cur_left_line_num := l', cur_right_line_num := r'\<rparr>) rest) \<and>
     FileDiff_init (pre @ hdr # body) =
       (case hunk_body_spec (self_filename v0) l r body of
          Inl e \<Rightarrow> Inl e
        | Inr (new, l', r') \<Rightarrow>
            Inr \<lparr>fd_lines = self_lines v0 @ new, fd_filename = self_filename v0\<rparr>) \<and>
     (g1 \<noteq> [] \<and> c1 \<noteq> [] \<and> g2 \<noteq> [] \<and> c2 \<noteq> [] \<and> list_all is_digit (g1 @ c1 @ g2 @ c2) \<longrightarrow>
        position_match (''@@ -'' @ g1 @ '','' @ c1 @ '' +'' @ g2 @ '','' @ c2 @ '' @@'' @ tl0) =
          Some (int_of_digits g1, int_of_digits g2)) \<and>
     hunk_body_spec f a b [CHR '' '' # t] =
       Inr ([\<lparr>filename = f, left_line_num = Some a, right_line_num = Some b,
              line_contents = rstrip t\<rparr>], a + 1, b + 1) \<and>
     hunk_body_spec f a b [CHR ''-'' # t] =
       Inr ([\<lparr>filename = f, left_line_num = Some a, right_line_num = None,
              line_contents = rstrip t\<rparr>], a + 1, b) \<and>
     hunk_body_spec f a b [CHR ''+'' # t] =
       Inr ([\<lparr>filename = f, left_line_num = None, right_line_num = Some b,
              line_contents = rstrip t\<rparr>], a, b + 1) \<and>
     (\<not> startswith line '' '' \<and> \<not> startswith line ''-'' \<and> \<not> startswith line ''+'' \<longrightarrow>
        hunk_body_spec f a b (line # others) = Inl AssertionError)"
proof -
  define v1 where "v1 = v0\<lparr>parsing_contents := True, cur_left_line_num := l,
    cur_right_line_num := r\<rparr>"
  have s1: "FileDiff_step v0 hdr = Inr v1"
    unfolding v1_def by (rule FileDiff_step_header [OF assms(2)])
  have pc: "parsing_contents v1" by (simp add: v1_def)
  have body: "FileDiff_loop v1 (body @ rs) =
       (case hunk_body_spec (self_filename v0) l r body of
          Inl e \<Rightarrow> Inl e
        | Inr (new, l', r') \<Rightarrow>
            FileDiff_loop (v0\<lparr>self_lines := self_lines v0 @ new, parsing_contents := True,
                              cur_left_line_num := l', cur_right_line_num := r'\<rparr>) rs)" for rs
  proof -
    have sel: "self_filename v1 = self_filename v0" "cur_left_line_num v1 = l"
      "cur_right_line_num v1 = r"
      by (simp_all add: v1_def)
    have req: "v1\<lparr>self_lines := self_lines v1 @ new, cur_left_line_num := l',
          cur_right_line_num := r'\<rparr> =
        v0\<lparr>self_lines := self_lines v0 @ new, parsing_contents := True,
          cur_left_line_num := l', cur_right_line_num := r'\<rparr>" for new l' r'
      unfolding v1_def by (cases v0) simp
    show ?thesis
      using FileDiff_loop_hunk_body [OF pc assms(3), of rs]
      by (simp only: sel req)
  qed
  have whole: "FileDiff_loop FileDiff_vars_init (pre @ hdr # body @ rs) =
      FileDiff_loop v1 (body @ rs)" for rs
    by (simp add: FileDiff_loop_append assms(1) s1)
  have A: "FileDiff_loop FileDiff_vars_init (pre @ hdr # body @ rest) =
       (case hunk_body_spec (self_filename v0) l r body of
          Inl e \<Rightarrow> Inl e
        | Inr (new, l', r') \<Rightarrow>
            FileDiff_loop (v0\<lparr>self_lines := self_lines v0 @ new, parsing_contents := True,
                              cur_left_line_num := l', cur_right_line_num := r'\<rparr>) rest)"
    by (simp only: whole body)
  have B: "FileDiff_init (pre @ hdr # body) =
       (case hunk_body_spec (self_filename v0) l r body of
          Inl e \<Rightarrow> Inl e
        | Inr (new, l', r') \<Rightarrow>
            Inr \<lparr>fd_lines = self_lines v0 @ new, fd_filename = self_filename v0\<rparr>)"
    using whole [of "[]"] body [of "[]"]
    by (simp add: FileDiff_init_def split: sum.splits prod.splits)
  have C: "position_match (''@@ -'' @ g1 @ '','' @ c1 @ '' +'' @ g2 @ '','' @ c2 @ '' @@'' @ tl0) =
          Some (int_of_digits g1, int_of_digits g2)"
    if "g1 \<noteq> []" "c1 \<noteq> []" "g2 \<noteq> []" "c2 \<noteq> []" "list_all is_digit (g1 @ c1 @ g2 @ c2)"
    using that by (intro position_match_header) simp_all
  have D: "hunk_body_spec f a b [CHR '' '' # t] =
       Inr ([\<lparr>filename = f, left_line_num = Some a, right_line_num = Some b,
              line_contents = rstrip t\<rparr>], a + 1, b + 1)"
    "hunk_body_spec f a b [CHR ''-'' # t] =
       Inr ([\<lparr>filename = f, left_line_num = Some a, right_line_num = None,
              line_contents = rstrip t\<rparr>], a + 1, b)"
    "hunk_body_spec f a b [CHR ''+'' # t] =
       Inr ([\<lparr>filename = f, left_line_num = None, right_line_num = Some b,
              line_contents = rstrip t\<rparr>], a, b + 1)"
    by (simp_all add: emit_def)
  have E: "hunk_body_spec f a b (line # others) = Inl AssertionError"
    if "\<not> startswith line '' ''" "\<not> startswith line ''-''" "\<not> startswith line ''+''"
    using that by simp
  from A B C D E show ?thesis by blast
qed

theorem parser_emits_hunk_body_witness:
  "FileDiff_loop FileDiff_vars_init
     [''diff --git a/f b/f'', ''index 1..2 100644'', ''--- a/f'', ''+++ b/f''] =
     Inr \<lparr>self_lines = [], self_filename = Some ''f'', parsing_contents = False,
      cur_left_line_num = 0, cur_right_line_num = 0\<rparr> \<and>
   position_match ''@@ -10,3 +10,4 @@'' = Some (10, 10) \<and>
   list_all (\<lambda>line. position_match line = None) ['' a'', ''+b  '', ''-c'', '' d''] \<and>
   list_all (\<lambda>line. position_match line = None) ['' a'', ''@@ -1 +1 @@''] \<and>
   hunk_body_spec (Some ''f'') 10 10 ['' a'', ''+b  '', ''-c'', '' d''] =
     Inr ([\<lparr>filename = Some ''f'', left_line_num = Some 10, right_line_num = Some 10,
           line_contents = ''a''\<rparr>,
          \<lparr>filename = Some ''f'', left_line_num = None, right_line_num = Some 11,
           line_contents = ''b''\<rparr>,
          \<lparr>filename = Some ''f'', left_line_num = Some 11, right_line_num = None,
           line_contents = ''c''\<rparr>,
          \<lparr>filename = Some ''f'', left_line_num = Some 12, right_line_num = Some 12,
           line_contents = ''d''\<rparr>], 13, 13) \<and>
   FileDiff_init
     ([''diff --git a/f b/f'', ''index 1..2 100644'', ''--- a/f'', ''+++ b/f''] @
      ''@@ -10,3 +10,4 @@'' # ['' a'', ''+b  '', ''-c'', '' d'']) =
     Inr \<lparr>fd_lines =
         [\<lparr>filename = Some ''f'', left_line_num = Some 10, right_line_num = Some 10,
           line_contents = ''a''\<rparr>,
          \<lparr>filename = Some ''f'', left_line_num = None, right_line_num = Some 11,
           line_contents = ''b''\<rparr>,
          \<lparr>filename = Some ''f'', left_line_num = Some 11, right_line_num = None,
           line_contents = ''c''\<rparr>,
          \<lparr>filename = Some ''f'', left_line_num = Some 12, right_line_num = Some 12,
           line_contents = ''d''\<rparr>],
        fd_filename = Some ''f''\<rparr> \<and>
   FileDiff_init
     ([''diff --git a/f b/f'', ''index 1..2 100644'', ''--- a/f'', ''+++ b/f''] @
      ''@@ -10,3 +10,4 @@'' # ['' a'', ''@@ -1 +1 @@'']) = Inl AssertionError"
proof -
  have a: "FileDiff_loop FileDiff_vars_init
     [''diff --git a/f b/f'', ''index 1..2 100644'', ''--- a/f'', ''+++ b/f''] =
     Inr \<lparr>self_lines = [], self_filename = Some ''f'', parsing_contents = False,
      cur_left_line_num = 0, cur_right_line_num = 0\<rparr>"
    by (simp add: FileDiff_vars_init_def FileDiff_step_def position_match_def expect_def)
  have b: "position_match ''@@ -10,3 +10,4 @@'' = Some (10, 10)"
    by (simp add: position_match_def expect_def digits_plus_def is_digit_def
          int_of_digits_def digit_val_def)
  have n: "position_match ''@@ -1 +1 @@'' = None"
    by (simp add: position_match_def expect_def digits_plus_def is_digit_def)
  have c1: "\<forall>line \<in> set ['' a'', ''+b  '', ''-c'', '' d'']. position_match line = None"
    by (simp add: position_match_body_None)
  have c2: "\<forall>line \<in> set ['' a'', ''@@ -1 +1 @@'']. position_match line = None"
    by (simp add: position_match_body_None n)
  have s1: "hunk_body_spec (Some ''f'') 10 10 ['' a'', ''+b  '', ''-c'', '' d''] =
     Inr ([\<lparr>filename = Some ''f'', left_line_num = Some 10, right_line_num = Some 10,
           line_contents = ''a''\<rparr>,
          \<lparr>filename = Some ''f'', left_line_num = None, right_line_num = Some 11,
           line_contents = ''b''\<rparr>,
          \<lparr>filename = Some ''f'', left_line_num = Some 11, right_line_num = None,
           line_contents = ''c''\<rparr>,
          \<lparr>filename = Some ''f'', left_line_num = Some 12, right_line_num = Some 12,
           line_contents = ''d''\<rparr>], 13, 13)"
    by (simp add: emit_def rstrip_def py_isspace_def)
  have s2: "hunk_body_spec (Some ''f'') 10 10 ['' a'', ''@@ -1 +1 @@''] = Inl AssertionError"
    by (simp add: emit_def)
  from parser_emits_hunk_body [OF a b c1, THEN conjunct2, THEN conjunct1]
  have r1: "FileDiff_init
     ([''diff --git a/f b/f'', ''index 1..2 100644'', ''--- a/f'', ''+++ b/f''] @
      ''@@ -10,3 +10,4 @@'' # ['' a'', ''+b  '', ''-c'', '' d'']) =
     Inr \<lparr>fd_lines =
         [\<lparr>filename = Some ''f'', left_line_num = Some 10, right_line_num = Some 10,
           line_contents = ''a''\<rparr>,
          \<lparr>filename = Some ''f'', left_line_num = None, right_line_num = Some 11,
           line_contents = ''b''\<rparr>,
          \<lparr>filename = Some ''f'', left_line_num = Some 11, right_line_num = None,
           line_contents = ''c''\<rparr>,
          \<lparr>filename = Some ''f'', left_line_num = Some 12, right_line_num = Some 12,
           line_contents = ''d''\<rparr>],
        fd_filename = Some ''f''\<rparr>"
    by (simp add: emit_def rstrip_def py_isspace_def)
  from parser_emits_hunk_body [OF a b c2, THEN conjunct2, THEN conjunct1]
  have r2: "FileDiff_init
     ([''diff --git a/f b/f'', ''index 1..2 100644'', ''--- a/f'', ''+++ b/f''] @
      ''@@ -10,3 +10,4 @@'' # ['' a'', ''@@ -1 +1 @@'']) = Inl AssertionError"
    by (simp add: emit_def rstrip_def py_isspace_def)
  from a b c1 c2 s1 r1 r2 show ?thesis
    by (simp add: list_all_iff)
qed

section \<open>Properties of the candidate list\<close>

lemma FileDiffLine_eq_iff: "FileDiffLine_eq a b = (a = b)"
  by (cases a; cases b) (auto simp: FileDiffLine_eq_def)

lemma fold_match_line:
  "fold (match_line d t p) ls (ms, hl) =
     (ms @ map (\<lambda>l. (fd_filename d, left_line_num l, right_line_num l))
             (filter (\<lambda>l. lines_match l t p \<and> l \<noteq> t \<and> left_line_num l \<noteq> None) ls),
      number_matches (length ms)
        (map (\<lambda>l. (fd_filename d, left_line_num l, right_line_num l))
             (filter (\<lambda>l. lines_match l t p \<and> l \<noteq> t \<and> left_line_num l \<noteq> None) ls)) hl)"
proof (induction ls arbitrary: ms hl)
  case Nil
  then show ?case by simp
next
  case (Cons l ls)
  show ?case
  proof (cases "lines_match l t p \<and> l \<noteq> t \<and> left_line_num l \<noteq> None")
    case True
    then have step: "match_line d t p l (ms, hl) =
        (ms @ [(fd_filename d, left_line_num l, right_line_num l)],
         AList.update (fd_filename d, left_line_num l, right_line_num l)
           (str_nat (Suc (length ms))) hl)"
      by (simp add: match_line_def FileDiffLine_eq_iff Let_def)
    show ?thesis
      using True by (simp add: step Cons.IH)
  next
    case False
    then have step: "match_line d t p l (ms, hl) = (ms, hl)"
      by (auto simp: match_line_def FileDiffLine_eq_iff)
    show ?thesis
      using False by (auto simp: step Cons.IH)
  qed
qed

lemma number_matches_append:
  "number_matches n (a @ b) hl = number_matches (n + length a) b (number_matches n a hl)"
  by (induction a arbitrary: n hl) simp_all

lemma fold_files:
  "fold (\<lambda>(k, d) st. fold (match_line d t p) (fd_lines d) st) items (ms, hl) =
     (ms @ concat (map (\<lambda>(k, d). map (\<lambda>l. (fd_filename d, left_line_num l, right_line_num l))
             (filter (\<lambda>l. lines_match l t p \<and> l \<noteq> t \<and> left_line_num l \<noteq> None) (fd_lines d)))
           items),
      number_matches (length ms)
        (concat (map (\<lambda>(k, d). map (\<lambda>l. (fd_filename d, left_line_num l, right_line_num l))
             (filter (\<lambda>l. lines_match l t p \<and> l \<noteq> t \<and> left_line_num l \<noteq> None) (fd_lines d)))
           items)) hl)"
proof (induction items arbitrary: ms hl)
  case Nil
  then show ?case by simp
next
  case (Cons x xs)
  obtain k d where x: "x = (k, d)" by (cases x)
  show ?case
    by (simp add: x fold_match_line Cons.IH number_matches_append add.commute)
qed

lemma number_matches_other:
  "k \<notin> set ms \<Longrightarrow> map_of (number_matches n ms hl) k = map_of hl k"
  by (induction ms arbitrary: n hl) (auto simp: update_conv')

lemma number_matches_label:
  "i < length ms \<Longrightarrow> \<forall>j < length ms. i < j \<longrightarrow> ms ! j \<noteq> ms ! i \<Longrightarrow>
   map_of (number_matches n ms hl) (ms ! i) = Some (str_nat (Suc (n + i)))"
proof (induction ms arbitrary: n hl i)
  case Nil
  then show ?case by simp
next
  case (Cons m ms)
  show ?case
  proof (cases i)
    case 0
    have "m \<notin> set ms"
    proof
      assume "m \<in> set ms"
      then obtain j where "j < length ms" "ms ! j = m" by (auto simp: in_set_conv_nth)
      with Cons.prems(2) 0 show False by (auto dest: spec [of _ "Suc j"])
    qed
    then show ?thesis
      using 0 by (simp add: number_matches_other update_conv')
  next
    case (Suc i')
    have a: "i' < length ms" using Cons.prems(1) Suc by simp
    have b: "\<forall>j < length ms. i' < j \<longrightarrow> ms ! j \<noteq> ms ! i'"
    proof (intro allI impI)
      fix j assume "j < length ms" "i' < j"
      with Cons.prems(2) Suc show "ms ! j \<noteq> ms ! i'"
        by (auto dest: spec [of _ "Suc j"])
    qed
    from Cons.IH [OF a b, of "Suc n" "AList.update m (str_nat (Suc n)) hl"] Suc
    show ?thesis by simp
  qed
qed

lemma sorted_items_returns:
  assumes "length items \<le> 1 \<or> None \<notin> fst ` set items"
  shows "\<exists>r. sorted_items items = Inr r \<and> mset r = mset items \<and> sorted (map fst r)"
proof (cases "length items \<le> 1")
  case True
  then have "sorted (map fst items)"
    by (cases items) (auto simp: Suc_le_eq)
  with True show ?thesis by (simp add: sorted_items_def)
next
  case False
  with assms have nn: "None \<notin> fst ` set items" by blast
  then have ex: "\<not> list_ex (\<lambda>(k, d). k = None) items"
    by (force simp: list_ex_iff)
  let ?r = "sort_key (\<lambda>(k, d). the k) items"
  have r: "sorted_items items = Inr ?r"
    using False ex by (simp add: sorted_items_def)
  have s: "sorted (map (\<lambda>(k, d). the k) ?r)" by (rule sorted_sort_key)
  have keys: "\<forall>x \<in> set ?r. fst x = Some ((\<lambda>(k, d). the k) x)"
    using nn by (force simp: image_iff)
  have eq: "map fst ?r = map (\<lambda>x. Some ((\<lambda>(k, d). the k) x)) ?r"
    by (rule map_cong [OF refl]) (use keys in auto)
  have mono: "sorted (map Some xs)" if "sorted xs" for xs :: "string list"
    using that by (induction xs) auto
  have "sorted (map Some (map (\<lambda>(k, d). the k) ?r))"
    by (rule mono [OF s])
  then have "sorted (map fst ?r)"
    by (simp only: eq map_map o_def)
  with r show ?thesis by simp
qed

text \<open>
  What the loop computes when \<^verbatim>\<open>sorted\<close> returns, that is for a change-set whose file
  diffs all have a path, or that has at most one file diff. The candidate list is, file
  by file in sorted path order and line by line in diff order, the positions (path,
  pre-image number, post-image number) of exactly the lines that pass the similarity
  test against the reference, differ from the reference and have a pre-image number.
  The candidate at place \<open>i\<close> (counted from zero) is labelled with the decimal numeral of
  \<open>i + 1\<close>, unless the same position occurs again later in the list.
\<close>

theorem candidates_exact_ordered_numbered:
  assumes "length (file_diffs c) \<le> 1 \<or> None \<notin> fst ` set (file_diffs c)"
  shows "\<exists>items ms hl.
     sorted_items (file_diffs c) = Inr items \<and> mset items = mset (file_diffs c) \<and>
     sorted (map fst items) \<and>
     find_matches c target_line hl0 params = Inr (ms, hl) \<and>
     ms = concat (map (\<lambda>(k, d).
            map (\<lambda>l. (fd_filename d, left_line_num l, right_line_num l))
              (filter (\<lambda>l. lines_match l target_line params \<and> l \<noteq> target_line \<and>
                           left_line_num l \<noteq> None) (fd_lines d))) items) \<and>
     (\<forall>i < length ms. (\<forall>j < length ms. i < j \<longrightarrow> ms ! j \<noteq> ms ! i) \<longrightarrow>
        map_of hl (ms ! i) = Some (str_nat (Suc i)))"
proof -
  from sorted_items_returns [OF assms] obtain items where
    r: "sorted_items (file_diffs c) = Inr items" and m: "mset items = mset (file_diffs c)" and
    s: "sorted (map fst items)" by blast
  define ms where "ms = concat (map (\<lambda>(k, d).
            map (\<lambda>l. (fd_filename d, left_line_num l, right_line_num l))
              (filter (\<lambda>l. lines_match l target_line params \<and> l \<noteq> target_line \<and>
                           left_line_num l \<noteq> None) (fd_lines d))) items)"
  have f: "find_matches c target_line hl0 params = Inr (ms, number_matches 0 ms hl0)"
    by (simp add: find_matches_def r fold_files ms_def)
  have n: "\<forall>i < length ms. (\<forall>j < length ms. i < j \<longrightarrow> ms ! j \<noteq> ms ! i) \<longrightarrow>
        map_of (number_matches 0 ms hl0) (ms ! i) = Some (str_nat (Suc i))"
    using number_matches_label [of _ ms 0 hl0] by simp
  show ?thesis
    by (intro exI [of _ items] exI [of _ ms] exI [of _ "number_matches 0 ms hl0"]
          conjI r m s f ms_def n)
qed

theorem candidates_exact_ordered_numbered_witness:
  "None \<notin> fst ` set (file_diffs
       \<lparr>hash = ''abc123'', author = Some ''A'', date = Some ''D'',
      file_diffs =
        [(Some ''b.txt'', \<lparr>fd_lines =
            [\<lparr>filename = Some ''b.txt'', left_line_num = Some 2, right_line_num = Some 2,
              line_contents = ''foobar ''\<rparr>,
             \<lparr>filename = Some ''b.txt'', left_line_num = None, right_line_num = Some 3,
              line_contents = ''foobar''\<rparr>],
            fd_filename = Some ''b.txt''\<rparr>),
         (Some ''a.txt'', \<lparr>fd_lines =
            [\<lparr>filename = Some ''a.txt'', left_line_num = Some 5, right_line_num = None,
              line_contents = ''foobaz''\<rparr>,
             \<lparr>filename = Some ''a.txt'', left_line_num = None, right_line_num = Some 5,
              line_contents = ''foobar''\<rparr>],
            fd_filename = Some ''a.txt''\<rparr>)],
      commit_message = ''msg''\<rparr>) \<and>
   find_matches
       \<lparr>hash = ''abc123'', author = Some ''A'', date = Some ''D'',
      file_diffs =
        [(Some ''b.txt'', \<lparr>fd_lines =
            [\<lparr>filename = Some ''b.txt'', left_line_num = Some 2, right_line_num = Some 2,
              line_contents = ''foobar ''\<rparr>,
             \<lparr>filename = Some ''b.txt'', left_line_num = None, right_line_num = Some 3,
              line_contents = ''foobar''\<rparr>],
            fd_filename = Some ''b.txt''\<rparr>),
         (Some ''a.txt'', \<lparr>fd_lines =
            [\<lparr>filename = Some ''a.txt'', left_line_num = Some 5, right_line_num = None,
              line_contents = ''foobaz''\<rparr>,
             \<lparr>filename = Some ''a.txt'', left_line_num = None, right_line_num = Some 5,
              line_contents = ''foobar''\<rparr>],
            fd_filename = Some ''a.txt''\<rparr>)],
      commit_message = ''msg''\<rparr>
       \<lparr>filename = Some ''a.txt'', left_line_num = None, right_line_num = Some 5,
      line_contents = ''foobar''\<rparr>
       [((Some ''a.txt'', None, Some 5), ''target'')] Map.empty =
     Inr ([(Some ''a.txt'', Some 5, None), (Some ''b.txt'', Some 2, Some 2)],
          [((Some ''a.txt'', None, Some 5), ''target''),
           ((Some ''a.txt'', Some 5, None), ''1''),
           ((Some ''b.txt'', Some 2, Some 2), ''2'')]) \<and>
   (\<exists>items ms hl.
     sorted_items (file_diffs
       \<lparr>hash = ''abc123'', author = Some ''A'', date = Some ''D'',
      file_diffs =
        [(Some ''b.txt'', \<lparr>fd_lines =
            [\<lparr>filename = Some ''b.txt'', left_line_num = Some 2, right_line_num = Some 2,
              line_contents = ''foobar ''\<rparr>,
             \<lparr>filename = Some ''b.txt'', left_line_num = None, right_line_num = Some 3,
              line_contents = ''foobar''\<rparr>],
            fd_filename = Some ''b.txt''\<rparr>),
         (Some ''a.txt'', \<lparr>fd_lines =
            [\<lparr>filename = Some ''a.txt'', left_line_num = Some 5, right_line_num = None,
              line_contents = ''foobaz''\<rparr>,
             \<lparr>filename = Some ''a.txt'', left_line_num = None, right_line_num = Some 5,
              line_contents = ''foobar''\<rparr>],
            fd_filename = Some ''a.txt''\<rparr>)],
      commit_message = ''msg''\<rparr>) = Inr items \<and>
     mset items = mset (file_diffs
       \<lparr>hash = ''abc123'', author = Some ''A'', date = Some ''D'',
      file_diffs =
        [(Some ''b.txt'', \<lparr>fd_lines =
            [\<lparr>filename = Some ''b.txt'', left_line_num = Some 2, right_line_num = Some 2,
              line_contents = ''foobar ''\<rparr>,
             \<lparr>filename = Some ''b.txt'', left_line_num = None, right_line_num = Some 3,
              line_contents = ''foobar''\<rparr>],
            fd_filename = Some ''b.txt''\<rparr>),
         (Some ''a.txt'', \<lparr>fd_lines =
            [\<lparr>filename = Some ''a.txt'', left_line_num = Some 5, right_line_num = None,
              line_contents = ''foobaz''\<rparr>,
             \<lparr>filename = Some ''a.txt'', left_line_num = None, right_line_num = Some 5,
              line_contents = ''foobar''\<rparr>],
            fd_filename = Some ''a.txt''\<rparr>)],
      commit_message = ''msg''\<rparr>) \<and>
     sorted (map fst items) \<and>
     find_matches
       \<lparr>hash = ''abc123'', author = Some ''A'', date = Some ''D'',
      file_diffs =
        [(Some ''b.txt'', \<lparr>fd_lines =
            [\<lparr>filename = Some ''b.txt'', left_line_num = Some 2, right_line_num = Some 2,
              line_contents = ''foobar ''\<rparr>,
             \<lparr>filename = Some ''b.txt'', left_line_num = None, right_line_num = Some 3,
              line_contents = ''foobar''\<rparr>],
            fd_filename = Some ''b.txt''\<rparr>),
         (Some ''a.txt'', \<lparr>fd_lines =
            [\<lparr>filename = Some ''a.txt'', left_line_num = Some 5, right_line_num = None,
              line_contents = ''foobaz''\<rparr>,
             \<lparr>filename = Some ''a.txt'', left_line_num = None, right_line_num = Some 5,
              line_contents = ''foobar''\<rparr>],
            fd_filename = Some ''a.txt''\<rparr>)],
      commit_message = ''msg''\<rparr>
       \<lparr>filename = Some ''a.txt'', left_line_num = None, right_line_num = Some 5,
      line_contents = ''foobar''\<rparr>
       [((Some ''a.txt'', None, Some 5), ''target'')] Map.empty = Inr (ms, hl) \<and>
     ms = concat (map (\<lambda>(k, d).
            map (\<lambda>l. (fd_filename d, left_line_num l, right_line_num l))
              (filter (\<lambda>l. lines_match l
                  \<lparr>filename = Some ''a.txt'', left_line_num = None, right_line_num = Some 5,
      line_contents = ''foobar''\<rparr> Map.empty \<and>
                  l \<noteq> \<lparr>filename = Some ''a.txt'', left_line_num = None, right_line_num = Some 5,
      line_contents = ''foobar''\<rparr> \<and>
                  left_line_num l \<noteq> None) (fd_lines d))) items) \<and>
     (\<forall>i < length ms. (\<forall>j < length ms. i < j \<longrightarrow> ms ! j \<noteq> ms ! i) \<longrightarrow>
        map_of hl (ms ! i) = Some (str_nat (Suc i))))"
proof -
  have h2: "None \<notin> fst ` set (file_diffs
       \<lparr>hash = ''abc123'', author = Some ''A'', date = Some ''D'',
      file_diffs =
        [(Some ''b.txt'', \<lparr>fd_lines =
            [\<lparr>filename = Some ''b.txt'', left_line_num = Some 2, right_line_num = Some 2,
              line_contents = ''foobar ''\<rparr>,
             \<lparr>filename = Some ''b.txt'', left_line_num = None, right_line_num = Some 3,
              line_contents = ''foobar''\<rparr>],
            fd_filename = Some ''b.txt''\<rparr>),
         (Some ''a.txt'', \<lparr>fd_lines =
            [\<lparr>filename = Some ''a.txt'', left_line_num = Some 5, right_line_num = None,
              line_contents = ''foobaz''\<rparr>,
             \<lparr>filename = Some ''a.txt'', left_line_num = None, right_line_num = Some 5,
              line_contents = ''foobar''\<rparr>],
            fd_filename = Some ''a.txt''\<rparr>)],
      commit_message = ''msg''\<rparr>)"
    by simp
  then have h: "length (file_diffs
       \<lparr>hash = ''abc123'', author = Some ''A'', date = Some ''D'',
      file_diffs =
        [(Some ''b.txt'', \<lparr>fd_lines =
            [\<lparr>filename = Some ''b.txt'', left_line_num = Some 2, right_line_num = Some 2,
              line_contents = ''foobar ''\<rparr>,
             \<lparr>filename = Some ''b.txt'', left_line_num = None, right_line_num = Some 3,
              line_contents = ''foobar''\<rparr>],
            fd_filename = Some ''b.txt''\<rparr>),
         (Some ''a.txt'', \<lparr>fd_lines =
            [\<lparr>filename = Some ''a.txt'', left_line_num = Some 5, right_line_num = None,
              line_contents = ''foobaz''\<rparr>,
             \<lparr>filename = Some ''a.txt'', left_line_num = None, right_line_num = Some 5,
              line_contents = ''foobar''\<rparr>],
            fd_filename = Some ''a.txt''\<rparr>)],
      commit_message = ''msg''\<rparr>) \<le> 1 \<or>
     None \<notin> fst ` set (file_diffs
       \<lparr>hash = ''abc123'', author = Some ''A'', date = Some ''D'',
      file_diffs =
        [(Some ''b.txt'', \<lparr>fd_lines =
            [\<lparr>filename = Some ''b.txt'', left_line_num = Some 2, right_line_num = Some 2,
              line_contents = ''foobar ''\<rparr>,
             \<lparr>filename = Some ''b.txt'', left_line_num = None, right_line_num = Some 3,
              line_contents = ''foobar''\<rparr>],
            fd_filename = Some ''b.txt''\<rparr>),
         (Some ''a.txt'', \<lparr>fd_lines =
            [\<lparr>filename = Some ''a.txt'', left_line_num = Some 5, right_line_num = None,
              line_contents = ''foobaz''\<rparr>,
             \<lparr>filename = Some ''a.txt'', left_line_num = None, right_line_num = Some 5,
              line_contents = ''foobar''\<rparr>],
            fd_filename = Some ''a.txt''\<rparr>)],
      commit_message = ''msg''\<rparr>)"
    by (rule disjI2)
  have e: "find_matches
       \<lparr>hash = ''abc123'', author = Some ''A'', date = Some ''D'',
      file_diffs =
        [(Some ''b.txt'', \<lparr>fd_lines =
            [\<lparr>filename = Some ''b.txt'', left_line_num = Some 2, right_line_num = Some 2,
              line_contents = ''foobar ''\<rparr>,
             \<lparr>filename = Some ''b.txt'', left_line_num = None, right_line_num = Some 3,
              line_contents = ''foobar''\<rparr>],
            fd_filename = Some ''b.txt''\<rparr>),
         (Some ''a.txt'', \<lparr>fd_lines =
            [\<lparr>filename = Some ''a.txt'', left_line_num = Some 5, right_line_num = None,
              line_contents = ''foobaz''\<rparr>,
             \<lparr>filename = Some ''a.txt'', left_line_num = None, right_line_num = Some 5,
              line_contents = ''foobar''\<rparr>],
            fd_filename = Some ''a.txt''\<rparr>)],
      commit_message = ''msg''\<rparr>
       \<lparr>filename = Some ''a.txt'', left_line_num = None, right_line_num = Some 5,
      line_contents = ''foobar''\<rparr>
       [((Some ''a.txt'', None, Some 5), ''target'')] Map.empty =
     Inr ([(Some ''a.txt'', Some 5, None), (Some ''b.txt'', Some 2, Some 2)],
          [((Some ''a.txt'', None, Some 5), ''target''),
           ((Some ''a.txt'', Some 5, None), ''1''),
           ((Some ''b.txt'', Some 2, Some 2), ''2'')])"
    by (simp add: find_matches_def sorted_items_def match_line_def FileDiffLine_eq_def
          lines_match_def commonprefix_pair strip_def lstrip_def rstrip_def py_isspace_def
          params_get_def str_nat.simps Let_def float_div_values_Suc double_0_8_def)
  have inst: "(\<exists>items ms hl.
     sorted_items (file_diffs
       \<lparr>hash = ''abc123'', author = Some ''A'', date = Some ''D'',
      file_diffs =
        [(Some ''b.txt'', \<lparr>fd_lines =
            [\<lparr>filename = Some ''b.txt'', left_line_num = Some 2, right_line_num = Some 2,
              line_contents = ''foobar ''\<rparr>,
             \<lparr>filename = Some ''b.txt'', left_line_num = None, right_line_num = Some 3,
              line_contents = ''foobar''\<rparr>],
            fd_filename = Some ''b.txt''\<rparr>),
         (Some ''a.txt'', \<lparr>fd_lines =
            [\<lparr>filename = Some ''a.txt'', left_line_num = Some 5, right_line_num = None,
              line_contents = ''foobaz''\<rparr>,
             \<lparr>filename = Some ''a.txt'', left_line_num = None, right_line_num = Some 5,
              line_contents = ''foobar''\<rparr>],
            fd_filename = Some ''a.txt''\<rparr>)],
      commit_message = ''msg''\<rparr>) = Inr items \<and>
     mset items = mset (file_diffs
       \<lparr>hash = ''abc123'', author = Some ''A'', date = Some ''D'',
      file_diffs =
        [(Some ''b.txt'', \<lparr>fd_lines =
            [\<lparr>filename = Some ''b.txt'', left_line_num = Some 2, right_line_num = Some 2,
              line_contents = ''foobar ''\<rparr>,
             \<lparr>filename = Some ''b.txt'', left_line_num = None, right_line_num = Some 3,
              line_contents = ''foobar''\<rparr>],
            fd_filename = Some ''b.txt''\<rparr>),
         (Some ''a.txt'', \<lparr>fd_lines =
            [\<lparr>filename = Some ''a.txt'', left_line_num = Some 5, right_line_num = None,
              line_contents = ''foobaz''\<rparr>,
             \<lparr>filename = Some ''a.txt'', left_line_num = None, right_line_num = Some 5,
              line_contents = ''foobar''\<rparr>],
            fd_filename = Some ''a.txt''\<rparr>)],
      commit_message = ''msg''\<rparr>) \<and>
     sorted (map fst items) \<and>
     find_matches
       \<lparr>hash = ''abc123'', author = Some ''A'', date = Some ''D'',
      file_diffs =
        [(Some ''b.txt'', \<lparr>fd_lines =
            [\<lparr>filename = Some ''b.txt'', left_line_num = Some 2, right_line_num = Some 2,
              line_contents = ''foobar ''\<rparr>,
             \<lparr>filename = Some ''b.txt'', left_line_num = None, right_line_num = Some 3,
              line_contents = ''foobar''\<rparr>],
            fd_filename = Some ''b.txt''\<rparr>),
         (Some ''a.txt'', \<lparr>fd_lines =
            [\<lparr>filename = Some ''a.txt'', left_line_num = Some 5, right_line_num = None,
              line_contents = ''foobaz''\<rparr>,
             \<lparr>filename = Some ''a.txt'', left_line_num = None, right_line_num = Some 5,
              line_contents = ''foobar''\<rparr>],
            fd_filename = Some ''a.txt''\<rparr>)],
      commit_message = ''msg''\<rparr>
       \<lparr>filename = Some ''a.txt'', left_line_num = None, right_line_num = Some 5,
      line_contents = ''foobar''\<rparr>
       [((Some ''a.txt'', None, Some 5), ''target'')] Map.empty = Inr (ms, hl) \<and>
     ms = concat (map (\<lambda>(k, d).
            map (\<lambda>l. (fd_filename d, left_line_num l, right_line_num l))
              (filter (\<lambda>l. lines_match l
                  \<lparr>filename = Some ''a.txt'', left_line_num = None, right_line_num = Some 5,
      line_contents = ''foobar''\<rparr> Map.empty \<and>
                  l \<noteq> \<lparr>filename = Some ''a.txt'', left_line_num = None, right_line_num = Some 5,
      line_contents = ''foobar''\<rparr> \<and>
                  left_line_num l \<noteq> None) (fd_lines d))) items) \<and>
     (\<forall>i < length ms. (\<forall>j < length ms. i < j \<longrightarrow> ms ! j \<noteq> ms ! i) \<longrightarrow>
        map_of hl (ms ! i) = Some (str_nat (Suc i))))"
    by (rule candidates_exact_ordered_numbered [OF h])
  show ?thesis
    by (intro conjI h2 e inst)
qed

text \<open>
  C3, at a change-set with two file sections: \<open>a.txt\<close>, where line 5 replaces a
  similar line, and a binary file, whose section has no path marker and so is stored
  under the key \<^verbatim>\<open>None\<close>. The parser accepts both sections, and the target line is found;
  then \<^verbatim>\<open>sorted(c.file_diffs.items())\<close> compares \<^verbatim>\<open>None\<close> with a string and raises
  \<open>TypeError\<close>, so no candidate list is computed, although the deleted line 5 of
  \<open>a.txt\<close> passes the similarity test, differs from the target and has a pre-image
  number.
\<close>

theorem candidates_TypeError_without_path:
  "FileDiff_init
     [''diff --git a/img.png b/img.png'', ''index 1..2 100644'',
      ''Binary files a/img.png and b/img.png differ''] =
     Inr \<lparr>fd_lines = [], fd_filename = None\<rparr> \<and>
   FileDiff_init
     [''diff --git a/a.txt b/a.txt'', ''index 3..4 100644'', ''--- a/a.txt'', ''+++ b/a.txt'',
      ''@@ -5,1 +5,1 @@'', ''-foobaz'', ''+foobar''] =
     Inr \<lparr>fd_lines =
         [\<lparr>filename = Some ''a.txt'', left_line_num = Some 5, right_line_num = None,
           line_contents = ''foobaz''\<rparr>,
          \<lparr>filename = Some ''a.txt'', left_line_num = None, right_line_num = Some 5,
           line_contents = ''foobar''\<rparr>],
        fd_filename = Some ''a.txt''\<rparr> \<and>
   lines_match
     \<lparr>filename = Some ''a.txt'', left_line_num = Some 5, right_line_num = None,
      line_contents = ''foobaz''\<rparr>
     \<lparr>filename = Some ''a.txt'', left_line_num = None, right_line_num = Some 5,
      line_contents = ''foobar''\<rparr> Map.empty \<and>
   compute_matches
     \<lparr>hash = ''abc123'', author = Some ''A'', date = Some ''D'',
      file_diffs =
        [(Some ''a.txt'', \<lparr>fd_lines =
         [\<lparr>filename = Some ''a.txt'', left_line_num = Some 5, right_line_num = None,
           line_contents = ''foobaz''\<rparr>,
          \<lparr>filename = Some ''a.txt'', left_line_num = None, right_line_num = Some 5,
           line_contents = ''foobar''\<rparr>],
        fd_filename = Some ''a.txt''\<rparr>),
         (None, \<lparr>fd_lines = [], fd_filename = None\<rparr>)],
      commit_message = ''msg''\<rparr>
     ''a.txt'' (Some 5) 5 Map.empty = Inl TypeError"
  by (simp add: FileDiff_init_def FileDiff_vars_init_def FileDiff_step_def position_match_def
        expect_def digits_plus_def is_digit_def int_of_digits_def digit_val_def rstrip_def
        py_isspace_def compute_matches_def get_line_def find_matches_def sorted_items_def
        lines_match_def commonprefix_pair strip_def lstrip_def params_get_def Let_def
        float_div_values_Suc double_0_8_def)

section \<open>Properties of the rendering\<close>

lemma should_show_fold:
  "fold (\<lambda>((left_num, right_num), highlight_char) should_show.
           let s1 = (if near (left_line_num l) left_num c then True else should_show)
           in if near (right_line_num l) right_num c then True else s1) hl b =
   (b \<or> list_ex (\<lambda>((left_num, right_num), ch).
          near (left_line_num l) left_num c \<or> near (right_line_num l) right_num c) hl)"
  by (induction hl arbitrary: b) (auto simp: Let_def)

lemma should_show_line_Some:
  "should_show_line l hl (Some c) =
     list_ex (\<lambda>((left_num, right_num), ch).
        near (left_line_num l) left_num c \<or> near (right_line_num l) right_num c) hl"
  unfolding should_show_line_def option.case should_show_fold by simp

lemma far_from_not_near:
  "far_from l left_num right_num c \<Longrightarrow>
   \<not> near (left_line_num l) left_num c \<and> \<not> near (right_line_num l) right_num c"
  by (auto simp: far_from_def near_def split: option.splits)

lemma this_file_fold_keys:
  "fst ` set (fold (\<lambda>((fname, left_num, right_num), highlight_char) acc.
             if fname = f then AList.update (left_num, right_num) highlight_char acc
             else acc) hl acc) =
   fst ` set acc \<union> {(ln, rn). \<exists>ch. ((f, ln, rn), ch) \<in> set hl}"
  (is "fst ` set (fold ?F hl acc) = _")
proof (induction hl arbitrary: acc)
  case Nil
  then show ?case by simp
next
  case (Cons x xs)
  obtain fname ln rn ch where x: "x = ((fname, ln, rn), ch)" by (cases x) auto
  have step: "fold ?F (x # xs) acc =
      fold ?F xs (if fname = f then AList.update (ln, rn) ch acc else acc)"
    by (simp add: x)
  show ?case
    unfolding step Cons.IH by (auto simp: x dom_update)
qed

lemma this_file_keys:
  "fst ` set (this_file_highlight_lines d hl) =
     {(ln, rn). \<exists>ch. ((fd_filename d, ln, rn), ch) \<in> set hl}"
  by (simp add: this_file_highlight_lines_def this_file_fold_keys)

lemma this_file_empty:
  assumes "\<forall>key \<in> fst ` set hl. fst key \<noteq> fd_filename d"
  shows "this_file_highlight_lines d hl = []"
proof -
  have "False" if "((fd_filename d, ln, rn), ch) \<in> set hl" for ln rn ch
  proof -
    from that have "(fd_filename d, ln, rn) \<in> fst ` set hl" by force
    with assms show False by force
  qed
  then have "fst ` set (this_file_highlight_lines d hl) = {}"
    by (auto simp: this_file_keys)
  then show ?thesis by simp
qed

lemma FileDiff_print_stream_line:
  "WriteDiffLine l \<in> set (FileDiff_print_stream d hl ctx) \<Longrightarrow>
   l \<in> set (fd_lines d) \<and> should_show_line l hl ctx"
  by (auto simp: FileDiff_print_stream_def split: if_splits option.splits)

lemma print_file_far:
  assumes "\<forall>((fname, left_num, right_num), ch) \<in> set hl.
             fname = fd_filename d \<longrightarrow> far_from l left_num right_num c"
  shows "WriteDiffLine l \<notin> set (print_file d hl (Some c))"
proof
  assume "WriteDiffLine l \<in> set (print_file d hl (Some c))"
  then have "WriteDiffLine l \<in>
      set (FileDiff_print_stream d (this_file_highlight_lines d hl) (Some c))"
    by (auto simp: print_file_def split: if_splits)
  then have "should_show_line l (this_file_highlight_lines d hl) (Some c)"
    by (rule FileDiff_print_stream_line [THEN conjunct2])
  then obtain ln rn ch where
    m: "((ln, rn), ch) \<in> set (this_file_highlight_lines d hl)" and
    n: "near (left_line_num l) ln c \<or> near (right_line_num l) rn c"
    by (auto simp: should_show_line_Some list_ex_iff)
  from m have "(ln, rn) \<in> fst ` set (this_file_highlight_lines d hl)" by force
  then obtain ch' where "((fd_filename d, ln, rn), ch') \<in> set hl"
    by (auto simp: this_file_keys)
  with assms have "far_from l ln rn c" by fastforce
  with n show False by (auto dest: far_from_not_near)
qed

text \<open>
  C5. When the highlight dictionary is not empty and full diffs were not requested, the
  context distance is 10, and in the rendering of a file diff: a file without any
  highlighted position contributes nothing to the output; and no diff line is written
  that is farther than 10 from every highlighted position of the file, in the pre-image
  numbering and in the post-image numbering (a numbering that the line or the position
  lacks does not bring them near). The output of a revision is its header and message
  followed by what each file diff contributes, in sorted order.
\<close>

theorem clipped_rendering:
  assumes "\<not> full_diffs" and "hl \<noteq> []"
  shows "context_around_highlights full_diffs hl = Some 10 \<and>
     ((\<forall>key \<in> fst ` set hl. fst key \<noteq> fd_filename d0) \<longrightarrow>
        print_file d0 hl (context_around_highlights full_diffs hl) = []) \<and>
     ((\<forall>((fname, left_num, right_num), ch) \<in> set hl.
          fname = fd_filename d \<longrightarrow> far_from l left_num right_num 10) \<longrightarrow>
        WriteDiffLine l \<notin> set (print_file d hl (context_around_highlights full_diffs hl))) \<and>
     (\<forall>out. Commit_print_stream c hl (context_around_highlights full_diffs hl) = Inr out \<longrightarrow>
        (\<exists>items. sorted_items (file_diffs c) = Inr items \<and>
           out = [WriteHeader (hash c) (author c) (date c), WriteMessage (commit_message c)] @
                 concat (map (\<lambda>(k, d). print_file d hl (Some 10)) items)))"
proof -
  have ctx: "context_around_highlights full_diffs hl = Some 10"
    using assms by (simp add: context_around_highlights_def)
  have omit: "print_file d0 hl (Some 10) = []"
    if "\<forall>key \<in> fst ` set hl. fst key \<noteq> fd_filename d0"
    using this_file_empty [OF that] by (simp add: print_file_def)
  have whole: "\<exists>items. sorted_items (file_diffs c) = Inr items \<and>
           out = [WriteHeader (hash c) (author c) (date c), WriteMessage (commit_message c)] @
                 concat (map (\<lambda>(k, d). print_file d hl (Some 10)) items)"
    if "Commit_print_stream c hl (Some 10) = Inr out" for out
    using that by (auto simp: Commit_print_stream_def split: sum.splits)
  show ?thesis
    unfolding ctx using omit print_file_far [of hl d l 10] whole by blast
qed

theorem clipped_rendering_witness:
  "context_around_highlights False [((Some ''a.txt'', None, Some 5), ''target''), ((Some ''a.txt'', Some 5, None), ''1'')] = Some 10 \<and>
   print_file \<lparr>fd_lines =
           [\<lparr>filename = Some ''b.txt'', left_line_num = Some 2, right_line_num = Some 2,
             line_contents = ''other''\<rparr>],
         fd_filename = Some ''b.txt''\<rparr>
     [((Some ''a.txt'', None, Some 5), ''target''), ((Some ''a.txt'', Some 5, None), ''1'')] (Some 10) = [] \<and>
   far_from \<lparr>filename = Some ''a.txt'', left_line_num = Some 30, right_line_num = Some 30,
            line_contents = ''end''\<rparr> None (Some 5) 10 \<and>
   far_from \<lparr>filename = Some ''a.txt'', left_line_num = Some 30, right_line_num = Some 30,
            line_contents = ''end''\<rparr> (Some 5) None 10 \<and>
   WriteDiffLine \<lparr>filename = Some ''a.txt'', left_line_num = Some 30, right_line_num = Some 30,
            line_contents = ''end''\<rparr> \<notin>
     set (print_file \<lparr>fd_lines =
           [\<lparr>filename = Some ''a.txt'', left_line_num = Some 5, right_line_num = None,
            line_contents = ''foobaz''\<rparr>,
            \<lparr>filename = Some ''a.txt'', left_line_num = None, right_line_num = Some 5,
            line_contents = ''foobar''\<rparr>,
            \<lparr>filename = Some ''a.txt'', left_line_num = Some 30, right_line_num = Some 30,
            line_contents = ''end''\<rparr>],
         fd_filename = Some ''a.txt''\<rparr>
       [((Some ''a.txt'', None, Some 5), ''target''), ((Some ''a.txt'', Some 5, None), ''1'')] (Some 10)) \<and>
   Commit_print_stream \<lparr>hash = ''abc123'', author = Some ''A'', date = Some ''D'',
      file_diffs = [(Some ''b.txt'', \<lparr>fd_lines =
           [\<lparr>filename = Some ''b.txt'', left_line_num = Some 2, right_line_num = Some 2,
             line_contents = ''other''\<rparr>],
         fd_filename = Some ''b.txt''\<rparr>),
        (Some ''a.txt'', \<lparr>fd_lines =
           [\<lparr>filename = Some ''a.txt'', left_line_num = Some 5, right_line_num = None,
            line_contents = ''foobaz''\<rparr>,
            \<lparr>filename = Some ''a.txt'', left_line_num = None, right_line_num = Some 5,
            line_contents = ''foobar''\<rparr>,
            \<lparr>filename = Some ''a.txt'', left_line_num = Some 30, right_line_num = Some 30,
            line_contents = ''end''\<rparr>],
         fd_filename = Some ''a.txt''\<rparr>)],
      commit_message = ''msg''\<rparr>
     [((Some ''a.txt'', None, Some 5), ''target''), ((Some ''a.txt'', Some 5, None), ''1'')] (Some 10) =
     Inr [WriteHeader ''abc123'' (Some ''A'') (Some ''D''), WriteMessage ''msg'',
          WriteHighlight ''1'', WriteDiffLine \<lparr>filename = Some ''a.txt'', left_line_num = Some 5, right_line_num = None,
            line_contents = ''foobaz''\<rparr>,
          WriteHighlight ''target'', WriteDiffLine \<lparr>filename = Some ''a.txt'', left_line_num = None, right_line_num = Some 5,
            line_contents = ''foobar''\<rparr>,
          WriteNewline]"
proof -
  have e: "Commit_print_stream \<lparr>hash = ''abc123'', author = Some ''A'', date = Some ''D'',
      file_diffs = [(Some ''b.txt'', \<lparr>fd_lines =
           [\<lparr>filename = Some ''b.txt'', left_line_num = Some 2, right_line_num = Some 2,
             line_contents = ''other''\<rparr>],
         fd_filename = Some ''b.txt''\<rparr>),
        (Some ''a.txt'', \<lparr>fd_lines =
           [\<lparr>filename = Some ''a.txt'', left_line_num = Some 5, right_line_num = None,
            line_contents = ''foobaz''\<rparr>,
            \<lparr>filename = Some ''a.txt'', left_line_num = None, right_line_num = Some 5,
            line_contents = ''foobar''\<rparr>,
            \<lparr>filename = Some ''a.txt'', left_line_num = Some 30, right_line_num = Some 30,
            line_contents = ''end''\<rparr>],
         fd_filename = Some ''a.txt''\<rparr>)],
      commit_message = ''msg''\<rparr>
     [((Some ''a.txt'', None, Some 5), ''target''), ((Some ''a.txt'', Some 5, None), ''1'')] (Some 10) =
     Inr [WriteHeader ''abc123'' (Some ''A'') (Some ''D''), WriteMessage ''msg'',
          WriteHighlight ''1'', WriteDiffLine \<lparr>filename = Some ''a.txt'', left_line_num = Some 5, right_line_num = None,
            line_contents = ''foobaz''\<rparr>,
          WriteHighlight ''target'', WriteDiffLine \<lparr>filename = Some ''a.txt'', left_line_num = None, right_line_num = Some 5,
            line_contents = ''foobar''\<rparr>,
          WriteNewline]"
    by (simp add: Commit_print_stream_def sorted_items_def print_file_def
          this_file_highlight_lines_def FileDiff_print_stream_def should_show_line_def
          near_def Let_def)
  have f: "far_from \<lparr>filename = Some ''a.txt'', left_line_num = Some 30, right_line_num = Some 30,
            line_contents = ''end''\<rparr> None (Some 5) 10"
    "far_from \<lparr>filename = Some ''a.txt'', left_line_num = Some 30, right_line_num = Some 30,
            line_contents = ''end''\<rparr> (Some 5) None 10"
    by (simp_all add: far_from_def)
  from clipped_rendering [of False "[((Some ''a.txt'', None, Some 5), ''target''), ((Some ''a.txt'', Some 5, None), ''1'')]"
      "\<lparr>fd_lines =
           [\<lparr>filename = Some ''b.txt'', left_line_num = Some 2, right_line_num = Some 2,
             line_contents = ''other''\<rparr>],
         fd_filename = Some ''b.txt''\<rparr>"
      "\<lparr>fd_lines =
           [\<lparr>filename = Some ''a.txt'', left_line_num = Some 5, right_line_num = None,
            line_contents = ''foobaz''\<rparr>,
            \<lparr>filename = Some ''a.txt'', left_line_num = None, right_line_num = Some 5,
            line_contents = ''foobar''\<rparr>,
            \<lparr>filename = Some ''a.txt'', left_line_num = Some 30, right_line_num = Some 30,
            line_contents = ''end''\<rparr>],
         fd_filename = Some ''a.txt''\<rparr>"
      "\<lparr>filename = Some ''a.txt'', left_line_num = Some 30, right_line_num = Some 30,
            line_contents = ''end''\<rparr>"
      "\<lparr>hash = ''abc123'', author = Some ''A'', date = Some ''D'',
      file_diffs = [(Some ''b.txt'', \<lparr>fd_lines =
           [\<lparr>filename = Some ''b.txt'', left_line_num = Some 2, right_line_num = Some 2,
             line_contents = ''other''\<rparr>],
         fd_filename = Some ''b.txt''\<rparr>),
        (Some ''a.txt'', \<lparr>fd_lines =
           [\<lparr>filename = Some ''a.txt'', left_line_num = Some 5, right_line_num = None,
            line_contents = ''foobaz''\<rparr>,
            \<lparr>filename = Some ''a.txt'', left_line_num = None, right_line_num = Some 5,
            line_contents = ''foobar''\<rparr>,
            \<lparr>filename = Some ''a.txt'', left_line_num = Some 30, right_line_num = Some 30,
            line_contents = ''end''\<rparr>],
         fd_filename = Some ''a.txt''\<rparr>)],
      commit_message = ''msg''\<rparr>"] e f
  show ?thesis
    by (simp add: context_around_highlights_def far_from_def)
qed

section \<open>The selection of a candidate by its number\<close>

lemma number_selection_raises:
  assumes "py_isdigit inp" and "py_int inp = Inr k"
    and "1 \<le> k" and "k \<le> int (length all_matches)"
  shows "present_choice c all_matches (inp # rest) = Inl NameError"
  using assms by (simp add: present_choice_def next_cursor_def)

lemma explicit_position_advances:
  "present_choice c all_matches [''a.txt:5''] =
     Inr (Some \<lparr>target_filename = Some ''a.txt'', target_line_num = Some 5,
                cursor_commit_hash = hash c @ ''^''\<rparr>)"
  by (simp add: present_choice_def next_cursor_def py_isdigit_def is_digit_def py_int_def
        strip_def lstrip_def rstrip_def py_isspace_def int_of_digits_def digit_val_def Let_def)

text \<open>
  C1, at the input "1" with one candidate (a.txt, pre-image line 5): the prompt loop
  accepts the number, and the update of the cursor then raises \<open>NameError\<close> instead of
  returning the cursor (a.txt, 5, identifier followed by the parent marker) that the
  claim describes.
\<close>

theorem number_selection_NameError:
  "choice_loop [(Some ''a.txt'', Some 5, Some 5)] [''1''] = Inr (Chosen (IntChoice 1)) \<and>
   present_choice
     \<lparr>hash = ''abc123'', author = Some ''A'', date = Some ''D'', file_diffs = [],
      commit_message = ''msg''\<rparr>
     [(Some ''a.txt'', Some 5, Some 5)] [''1''] = Inl NameError \<and>
   selected_cursor_spec
     \<lparr>hash = ''abc123'', author = Some ''A'', date = Some ''D'', file_diffs = [],
      commit_message = ''msg''\<rparr>
     [(Some ''a.txt'', Some 5, Some 5)] 1 =
     \<lparr>target_filename = Some ''a.txt'', target_line_num = Some 5,
      cursor_commit_hash = ''abc123^''\<rparr>"
  by (simp add: present_choice_def next_cursor_def py_isdigit_def is_digit_def py_int_def
        strip_def lstrip_def rstrip_def py_isspace_def int_of_digits_def digit_val_def Let_def
        selected_cursor_spec_def)

end
